theory Spec2Isabelle
  imports Complex_Main
begin

section \<open>Data model\<close>

text \<open>
  The Python sources compute with \<open>float\<close>; positions, confidences, scores and
  timestamps are modelled by \<open>real\<close> (exact arithmetic, the usual idealisation of
  floating point). Python's unbounded \<open>int\<close> is \<open>int\<close>. A wall-clock reading
  (\<open>time.time()\<close>) is an input of the function that takes it.
\<close>

type_synonym point = "real \<times> real"

text \<open>An item of the stabiliser: \<open>(cx, cy, label)\<close>.\<close>

type_synonym item = "real \<times> real \<times> string"

definition item_label :: "item \<Rightarrow> string" where
  "item_label it = snd (snd it)"

definition item_y :: "item \<Rightarrow> real" where
  "item_y it = fst (snd it)"

subsection \<open>Constants of \<open>card_detector_plugin.py\<close>\<close>

definition BUFFER_SIZE :: nat where
  "BUFFER_SIZE = 6"

definition CONFIRMATION_THRESHOLD :: int where
  "CONFIRMATION_THRESHOLD = 2"

definition MIN_CONFIDENCE_NORMAL :: real where
  "MIN_CONFIDENCE_NORMAL = 40 / 100"

definition MIN_CONFIDENCE_BACK :: real where
  "MIN_CONFIDENCE_BACK = 25 / 100"

definition MIN_SEAT_DISTANCE :: real where
  "MIN_SEAT_DISTANCE = 12 / 100"

definition SEAT_CONFIRMED_TIMEOUT :: real where
  "SEAT_CONFIRMED_TIMEOUT = 300"

definition SEAT_CANDIDATE_TIMEOUT :: real where
  "SEAT_CANDIDATE_TIMEOUT = 2"

definition SEAT_CREATION_FRAMES :: int where
  "SEAT_CREATION_FRAMES = 8"

definition DETECTANDO :: string where
  "DETECTANDO = ''Detectando...''"

text \<open>
  \<open>GG_LAYOUTS\<close> is a dict literal; Python iterates a dict in insertion order, so the
  table is an association list in the order of the source.
\<close>

definition GG_LAYOUTS :: "(string \<times> point list) list" where
  "GG_LAYOUTS =
    [(''3-Max'', [(50/100, 68/100), (20/100, 35/100), (80/100, 35/100)]),
     (''4-Max'', [(50/100, 68/100), (15/100, 45/100), (50/100, 25/100), (85/100, 45/100)]),
     (''5-Max'', [(50/100, 68/100), (18/100, 55/100), (18/100, 28/100), (82/100, 28/100),
                  (82/100, 55/100)]),
     (''6-Max'', [(50/100, 68/100), (28/100, 65/100), (12/100, 45/100), (35/100, 25/100),
                  (65/100, 25/100), (88/100, 45/100), (72/100, 65/100)]),
     (''8-Max'', [(50/100, 68/100), (30/100, 66/100), (15/100, 50/100), (15/100, 30/100),
                  (40/100, 22/100), (60/100, 22/100), (85/100, 30/100), (85/100, 50/100),
                  (70/100, 66/100)]),
     (''9-Max'', [(50/100, 68/100), (32/100, 66/100), (16/100, 52/100), (14/100, 32/100),
                  (30/100, 22/100), (70/100, 22/100), (86/100, 32/100), (84/100, 52/100),
                  (68/100, 66/100)])]"

section \<open>Seat\<close>

record seat =
  center_x :: real
  center_y :: real
  last_seen_time :: real
  detection_count :: int
  is_confirmed :: bool

text \<open>\<open>Seat.__init__\<close>; \<open>t\<close> is the clock reading taken by the constructor.\<close>

definition Seat :: "real \<Rightarrow> real \<Rightarrow> real \<Rightarrow> seat" where
  "Seat x y t =
    \<lparr>center_x = x, center_y = y, last_seen_time = t, detection_count = 1,
     is_confirmed = False\<rparr>"

text \<open>\<open>Seat.update\<close>; \<open>t\<close> is the clock reading taken by the method.\<close>

definition update :: "seat \<Rightarrow> real \<Rightarrow> real \<Rightarrow> real \<Rightarrow> seat" where
  "update s x y t =
    (let s1 = s\<lparr>center_x := center_x s * (9 / 10) + x * (1 / 10),
                 center_y := center_y s * (9 / 10) + y * (1 / 10),
                 last_seen_time := t,
                 detection_count := detection_count s + 1\<rparr>
     in if detection_count s1 \<ge> SEAT_CREATION_FRAMES
        then s1\<lparr>is_confirmed := True\<rparr> else s1)"

text \<open>
  The life of one seat: created from a first observation, then updated once for each
  later match \<open>(x, y, t)\<close>. \<open>seat_trace\<close> lists the seat after each update.
\<close>

fun seat_trace :: "seat \<Rightarrow> (real \<times> real \<times> real) list \<Rightarrow> seat list" where
  "seat_trace s [] = []"
| "seat_trace s ((x, y, t) # obs) = update s x y t # seat_trace (update s x y t) obs"

text \<open>The number of steps of a run of trust states that go from CANDIDATE to CONFIRMED.\<close>

fun promotions :: "bool \<Rightarrow> bool list \<Rightarrow> nat" where
  "promotions b [] = 0"
| "promotions b (c # cs) = (if \<not> b \<and> c then 1 else 0) + promotions c cs"

text \<open>The number of steps that go from CONFIRMED back to CANDIDATE.\<close>

fun demotions :: "bool \<Rightarrow> bool list \<Rightarrow> nat" where
  "demotions b [] = 0"
| "demotions b (c # cs) = (if b \<and> \<not> c then 1 else 0) + demotions c cs"

section \<open>Table-format classifier\<close>

text \<open>\<open>math.hypot\<close>.\<close>

definition hypot :: "real \<Rightarrow> real \<Rightarrow> real" where
  "hypot a b = sqrt (a * a + b * b)"

definition hero_present :: "point list \<Rightarrow> bool" where
  "hero_present pts =
    list_ex (\<lambda>(px, py). \<bar>px - 5 / 10\<bar> < 1 / 10 \<and> \<bar>py - 68 / 100\<bar> < 1 / 10) pts"

definition puntos_test_of :: "point list \<Rightarrow> point list" where
  "puntos_test_of puntos_confirmados =
    (if hero_present puntos_confirmados then puntos_confirmados
     else puntos_confirmados @ [(50 / 100, 68 / 100)])"

text \<open>
  \<open>min([math.hypot(px-lx, py-ly) for lx, ly in layout])\<close>. Python's \<open>min\<close> raises on
  an empty list; every layout of the table is non-empty.
\<close>

definition min_d_of :: "point list \<Rightarrow> point \<Rightarrow> real" where
  "min_d_of layout p =
    min_list (map (\<lambda>(lx, ly). hypot (fst p - lx) (snd p - ly)) layout)"

text \<open>The inner loop over the test points: accumulated error and number of matches.\<close>

fun match_points :: "point list \<Rightarrow> point list \<Rightarrow> real \<times> nat \<Rightarrow> real \<times> nat" where
  "match_points layout [] acc = acc"
| "match_points layout (p # ps) (error_layout, matches) =
    (let min_d = min_d_of layout p
     in if min_d < 15 / 100
        then match_points layout ps (error_layout + min_d, matches + 1)
        else match_points layout ps (error_layout, matches))"

text \<open>The score of one layout; \<open>None\<close> when the layout has no match and is skipped.\<close>

definition layout_score :: "point list \<Rightarrow> point list \<Rightarrow> real option" where
  "layout_score layout puntos_test =
    (case match_points layout puntos_test (0, 0) of
       (error_layout, matches) \<Rightarrow>
         if matches > 0 then
           (let avg_error = error_layout / real matches;
                unexplained_points_penalty =
                  real_of_int (int (length puntos_test) - int matches) * 5;
                empty_seats_penalty =
                  real_of_int (int (length layout) - int matches) * (1 / 10)
            in Some (avg_error + unexplained_points_penalty + empty_seats_penalty))
         else None)"

text \<open>\<open>score < menor_score\<close>, where \<open>None\<close> stands for \<open>float('inf')\<close>.\<close>

definition below :: "real \<Rightarrow> real option \<Rightarrow> bool" where
  "below score menor = (case menor of None \<Rightarrow> True | Some m \<Rightarrow> score < m)"

text \<open>The loop over the layouts, carrying \<open>(mejor_fit, menor_score)\<close>.\<close>

fun layouts_loop ::
  "(string \<times> point list) list \<Rightarrow> point list \<Rightarrow> string \<times> real option \<Rightarrow> string \<times> real option"
where
  "layouts_loop [] puntos_test acc = acc"
| "layouts_loop ((nombre, layout) # rest) puntos_test (mejor_fit, menor_score) =
    (case layout_score layout puntos_test of
       None \<Rightarrow> layouts_loop rest puntos_test (mejor_fit, menor_score)
     | Some score \<Rightarrow>
         if below score menor_score
         then layouts_loop rest puntos_test (nombre, Some score)
         else layouts_loop rest puntos_test (mejor_fit, menor_score))"

definition best_fit :: "point list \<Rightarrow> string \<times> real option" where
  "best_fit puntos_confirmados =
    layouts_loop GG_LAYOUTS (puntos_test_of puntos_confirmados) (''Custom'', None)"

text \<open>\<open>CardDetectorPlugin._inferir_formato_geometrico\<close>.\<close>

definition inferir_formato_geometrico :: "point list \<Rightarrow> string" where
  "inferir_formato_geometrico puntos_confirmados =
    (if puntos_confirmados = [] then DETECTANDO
     else case best_fit puntos_confirmados of
       (mejor_fit, menor_score) \<Rightarrow>
         (case menor_score of
            None \<Rightarrow> DETECTANDO
          | Some m \<Rightarrow> if m > 3 then DETECTANDO else mejor_fit))"

section \<open>Classifier: notions used to state its properties\<close>

text \<open>The test of the inner loop: the point counts as matched by the layout.\<close>

definition matched :: "point list \<Rightarrow> point \<Rightarrow> bool" where
  "matched layout p = (min_d_of layout p < 15 / 100)"

text \<open>The value of \<open>matches\<close> after the inner loop.\<close>

definition matches_of :: "point list \<Rightarrow> point list \<Rightarrow> nat" where
  "matches_of layout pts = length (filter (matched layout) pts)"

text \<open>The squared distance of two points.\<close>

definition sq_dist :: "point \<Rightarrow> point \<Rightarrow> real" where
  "sq_dist p q = (fst p - fst q) * (fst p - fst q) + (snd p - snd q) * (snd p - snd q)"

text \<open>The coordinate list stored in \<open>GG_LAYOUTS\<close> under a name.\<close>

definition layout_of :: "string \<Rightarrow> point list" where
  "layout_of nombre = (case map_of GG_LAYOUTS nombre of Some layout \<Rightarrow> layout | None \<Rightarrow> [])"

text \<open>A layout is out of the race against the score \<open>s\<close>: skipped, or scoring above it.\<close>

definition beaten_by :: "real \<Rightarrow> point list \<Rightarrow> point list \<Rightarrow> bool" where
  "beaten_by s puntos_test layout =
    (case layout_score layout puntos_test of None \<Rightarrow> True | Some t \<Rightarrow> s < t)"

text \<open>A layout does not improve on the score \<open>s\<close>: skipped, or scoring at least \<open>s\<close>.\<close>

definition not_better :: "real \<Rightarrow> point list \<Rightarrow> point list \<Rightarrow> bool" where
  "not_better s puntos_test layout =
    (case layout_score layout puntos_test of None \<Rightarrow> True | Some t \<Rightarrow> s \<le> t)"

section \<open>Seat registry\<close>

text \<open>The centroid of a group of items.\<close>

definition centroid :: "item list \<Rightarrow> point" where
  "centroid cluster_group =
    (sum_list (map fst cluster_group) / real (length cluster_group),
     sum_list (map item_y cluster_group) / real (length cluster_group))"

text \<open>
  Step 1 of \<open>_gestionar_asientos\<close>: the loop over \<open>sorted_items[1:]\<close>, carrying the
  open group and the clusters closed so far.
\<close>

fun cluster_loop :: "real \<Rightarrow> item list \<Rightarrow> item list \<Rightarrow> point list \<Rightarrow> item list \<times> point list" where
  "cluster_loop thr [] cluster_group current_clusters = (cluster_group, current_clusters)"
| "cluster_loop thr (it # rest) cluster_group current_clusters =
    (if \<bar>fst it - fst (last cluster_group)\<bar> < thr
     then cluster_loop thr rest (cluster_group @ [it]) current_clusters
     else cluster_loop thr rest [it] (current_clusters @ [centroid cluster_group]))"

definition current_clusters_of :: "item list \<Rightarrow> int \<Rightarrow> point list" where
  "current_clusters_of opp_raw ancho_img =
    (case sort_key fst opp_raw of
       [] \<Rightarrow> []
     | first # rest \<Rightarrow>
         (case cluster_loop (real_of_int ancho_img * MIN_SEAT_DISTANCE) rest [first] [] of
            (cluster_group, current_clusters) \<Rightarrow>
              if cluster_group \<noteq> [] then current_clusters @ [centroid cluster_group]
              else current_clusters))"

text \<open>
  Step 2, the search for the seat of one cluster: the index of the matched seat and
  \<open>min_dist\<close>, \<open>None\<close> while \<open>matched_seat\<close> is \<open>None\<close> and \<open>min_dist\<close> infinite.
\<close>

fun find_seat ::
  "int \<Rightarrow> real \<Rightarrow> real \<Rightarrow> seat list \<Rightarrow> nat \<Rightarrow> (nat \<times> real) option \<Rightarrow> (nat \<times> real) option"
where
  "find_seat ancho_img cx cy [] i best = best"
| "find_seat ancho_img cx cy (s # ss) i best =
    (let dx = \<bar>center_x s - cx\<bar>; dy = \<bar>center_y s - cy\<bar>
     in if dx < real_of_int ancho_img * (15 / 100) \<and> dy < real_of_int ancho_img * (2 / 10)
        then (if (case best of None \<Rightarrow> True | Some (j, min_dist) \<Rightarrow> dx < min_dist)
              then find_seat ancho_img cx cy ss (i + 1) (Some (i, dx))
              else find_seat ancho_img cx cy ss (i + 1) best)
        else find_seat ancho_img cx cy ss (i + 1) best)"

text \<open>
  Step 2, the loop over the clusters. \<open>clk k\<close> is the clock reading taken while the
  \<open>k\<close>-th cluster is handled (by \<open>Seat.update\<close> or by the constructor). The matched
  seat is updated in place, a new seat is appended.
\<close>

fun match_clusters :: "int \<Rightarrow> (nat \<Rightarrow> real) \<Rightarrow> nat \<Rightarrow> point list \<Rightarrow> seat list \<Rightarrow> seat list" where
  "match_clusters ancho_img clk k [] seats = seats"
| "match_clusters ancho_img clk k ((cx, cy) # cs) seats =
    match_clusters ancho_img clk (k + 1) cs
      (case find_seat ancho_img cx cy seats 0 None of
         Some (i, min_dist) \<Rightarrow> seats[i := update (seats ! i) cx cy (clk k)]
       | None \<Rightarrow> seats @ [Seat cx cy (clk k)])"

text \<open>Step 3, the clean-up loop: the seats kept and the points for the classifier.\<close>

fun collect_seats :: "real \<Rightarrow> int \<Rightarrow> int \<Rightarrow> seat list \<Rightarrow> seat list \<times> point list" where
  "collect_seats now ancho_img alto_img [] = ([], [])"
| "collect_seats now ancho_img alto_img (s # ss) =
    (case collect_seats now ancho_img alto_img ss of
       (active_seats_list, puntos_geom) \<Rightarrow>
         (let age = now - last_seen_time s
          in if is_confirmed s then
               (if age < SEAT_CONFIRMED_TIMEOUT
                then (s # active_seats_list,
                      (center_x s / real_of_int ancho_img, center_y s / real_of_int alto_img)
                        # puntos_geom)
                else (active_seats_list, puntos_geom))
             else
               (if age < SEAT_CANDIDATE_TIMEOUT
                then (s # active_seats_list, puntos_geom)
                else (active_seats_list, puntos_geom))))"

text \<open>The test of the clean-up loop: a seat stays if its age is under its timeout.\<close>

definition seat_age :: "real \<Rightarrow> seat \<Rightarrow> real" where
  "seat_age now s = now - last_seen_time s"

definition keep_seat :: "real \<Rightarrow> seat \<Rightarrow> bool" where
  "keep_seat now s =
    (if is_confirmed s then seat_age now s < SEAT_CONFIRMED_TIMEOUT
     else seat_age now s < SEAT_CANDIDATE_TIMEOUT)"

definition normalise :: "int \<Rightarrow> int \<Rightarrow> seat \<Rightarrow> point" where
  "normalise ancho_img alto_img s =
    (center_x s / real_of_int ancho_img, center_y s / real_of_int alto_img)"

text \<open>The part of the plugin object that the registry reads and writes.\<close>

record registry =
  seats :: "seat list"
  detected_table_format :: string

text \<open>The seat list after step 2, before the clean-up.\<close>

definition matched_seats :: "registry \<Rightarrow> item list \<Rightarrow> int \<Rightarrow> (nat \<Rightarrow> real) \<Rightarrow> seat list" where
  "matched_seats r opp_raw ancho_img clk =
    match_clusters ancho_img clk 0 (current_clusters_of opp_raw ancho_img) (seats r)"

text \<open>
  \<open>CardDetectorPlugin._gestionar_asientos\<close>: the new registry, the classifier's input
  of this evaluation (\<open>None\<close> when the classifier is not called) and the returned count.
\<close>

definition gestionar_asientos ::
  "registry \<Rightarrow> item list \<Rightarrow> int \<Rightarrow> int \<Rightarrow> real \<Rightarrow> (nat \<Rightarrow> real) \<Rightarrow> registry \<times> point list option \<times> int"
where
  "gestionar_asientos r opp_raw ancho_img alto_img now clk =
    (if ancho_img \<le> 0 \<or> alto_img \<le> 0 then (r, None, 0)
     else case collect_seats now ancho_img alto_img (matched_seats r opp_raw ancho_img clk) of
       (active_seats_list, puntos_geom) \<Rightarrow>
         (\<lparr>seats = active_seats_list,
           detected_table_format = inferir_formato_geometrico puntos_geom\<rparr>,
          Some puntos_geom,
          int (length (filter is_confirmed active_seats_list))))"

section \<open>Orchestrator: the crop rectangle\<close>

text \<open>Python's \<open>int()\<close> of a float truncates towards zero.\<close>

definition py_int :: "real \<Rightarrow> int" where
  "py_int r = (if 0 \<le> r then \<lfloor>r\<rfloor> else \<lceil>r\<rceil>)"

definition scale_x :: real where
  "scale_x = 1920 / 2560"

definition scale_y :: real where
  "scale_y = 1080 / 1440"

text \<open>
  The scaled and clamped rectangle \<open>(sx, sy, sw, sh)\<close> of \<open>main_loop\<close>, from the
  tracker's \<open>(x, y, w, h)\<close> and the frame's \<open>w_img\<close>, \<open>h_img\<close>.
\<close>

definition scaled_crop :: "int \<times> int \<times> int \<times> int \<Rightarrow> int \<Rightarrow> int \<Rightarrow> int \<times> int \<times> int \<times> int" where
  "scaled_crop coords_2k w_img h_img =
    (case coords_2k of
       (x, y, w, h) \<Rightarrow>
         (let sx0 = py_int (real_of_int x * scale_x);
              sy0 = py_int (real_of_int y * scale_y);
              sw0 = py_int (real_of_int w * scale_x);
              sh0 = py_int (real_of_int h * scale_y);
              sx = max 0 (min sx0 (w_img - 1));
              sy = max 0 (min sy0 (h_img - 1));
              sw = max 1 (min sw0 (w_img - sx));
              sh = max 1 (min sh0 (h_img - sy))
          in (sx, sy, sw, sh)))"

section \<open>Detection stabiliser\<close>

text \<open>The region a detection is assigned to: the keys of \<open>candidates\<close>.\<close>

datatype ctype = Hero | Board | Opponent

text \<open>An entry of a frame's list in the history: \<open>(cx, cy, label, ctype)\<close>.\<close>

type_synonym frame_item = "real \<times> real \<times> string \<times> ctype"

definition CARD_BACK :: string where
  "CARD_BACK = ''card_back''"

definition CARD_LABELS :: "string list" where
  "CARD_LABELS =
    [''2c'', ''2d'', ''2h'', ''2s'',
     ''3c'', ''3d'', ''3h'', ''3s'',
     ''4c'', ''4d'', ''4h'', ''4s'',
     ''5c'', ''5d'', ''5h'', ''5s'',
     ''6c'', ''6d'', ''6h'', ''6s'',
     ''7c'', ''7d'', ''7h'', ''7s'',
     ''8c'', ''8d'', ''8h'', ''8s'',
     ''9c'', ''9d'', ''9h'', ''9s'',
     ''Tc'', ''Td'', ''Th'', ''Ts'',
     ''Jc'', ''Jd'', ''Jh'', ''Js'',
     ''Qc'', ''Qd'', ''Qh'', ''Qs'',
     ''Kc'', ''Kd'', ''Kh'', ''Ks'',
     ''Ac'', ''Ad'', ''Ah'', ''As'',
     ''card_back'']"

definition es_label_carta :: "string \<Rightarrow> bool" where
  "es_label_carta label = (label \<in> set CARD_LABELS \<or> label = CARD_BACK)"

text \<open>A cluster of \<open>_consolidar_buffer\<close>: the dict with these four keys.\<close>

record cluster =
  labels :: "string list"
  sum_x :: real
  sum_y :: real
  count :: int

definition grid_size :: real where
  "grid_size = 30"

text \<open>The test of the inner loop: the detection lies within the cluster's box.\<close>

definition near :: "cluster \<Rightarrow> item \<Rightarrow> bool" where
  "near cl it =
    (let dcx = sum_x cl / real_of_int (count cl);
         dcy = sum_y cl / real_of_int (count cl)
     in \<bar>fst it - dcx\<bar> < grid_size \<and> \<bar>item_y it - dcy\<bar> < grid_size)"

text \<open>The detection is added to the cluster.\<close>

definition join :: "cluster \<Rightarrow> item \<Rightarrow> cluster" where
  "join cl it =
    cl\<lparr>labels := labels cl @ [item_label it],
       sum_x := sum_x cl + fst it,
       sum_y := sum_y cl + item_y it,
       count := count cl + 1\<rparr>"

definition new_cluster :: "item \<Rightarrow> cluster" where
  "new_cluster it = \<lparr>labels = [item_label it], sum_x = fst it, sum_y = item_y it, count = 1\<rparr>"

text \<open>
  One round of the loop over the items: the clusters are tried in order, the first one
  that passes the test takes the detection and the search stops; if none does, a new
  cluster is appended.
\<close>

fun add_to_clusters :: "cluster list \<Rightarrow> item \<Rightarrow> cluster list" where
  "add_to_clusters [] it = [new_cluster it]"
| "add_to_clusters (cl # rest) it =
    (if near cl it then join cl it # rest else cl # add_to_clusters rest it)"

definition build_clusters :: "item list \<Rightarrow> cluster list" where
  "build_clusters items = foldl add_to_clusters [] items"

text \<open>
  \<open>Counter(xs).most_common(1)[0][0]\<close>: the keys of a Counter are in order of first
  occurrence, and the first key with the highest count is returned. On an empty list
  Python raises; every cluster has a label, so the case does not arise there.
\<close>

definition first_seen :: "'a list \<Rightarrow> 'a list" where
  "first_seen xs = rev (remdups (rev xs))"

definition most_common :: "'a list \<Rightarrow> 'a option" where
  "most_common xs =
    (case first_seen xs of
       [] \<Rightarrow> None
     | k # ks \<Rightarrow>
         Some (foldl (\<lambda>best c. if count_list xs best < count_list xs c then c else best) k ks))"

text \<open>The second loop over the clusters: those seen often enough are resolved.\<close>

definition resolve_cluster :: "cluster \<Rightarrow> item list" where
  "resolve_cluster cl =
    (if count cl \<ge> CONFIRMATION_THRESHOLD then
       (case most_common (labels cl) of
          None \<Rightarrow> []
        | Some label \<Rightarrow>
            [(sum_x cl / real_of_int (count cl), sum_y cl / real_of_int (count cl), label)])
     else [])"

definition resolve_clusters :: "cluster list \<Rightarrow> item list" where
  "resolve_clusters cls = concat (map resolve_cluster cls)"

definition candidates_of :: "ctype \<Rightarrow> frame_item list list \<Rightarrow> item list" where
  "candidates_of ct history =
    map (\<lambda>(cx, cy, label, c). (cx, cy, label))
      (filter (\<lambda>(cx, cy, label, c). c = ct) (concat history))"

text \<open>\<open>CardDetectorPlugin._consolidar_buffer\<close>: hero, board and opponent results.\<close>

definition consolidar_buffer :: "frame_item list list \<Rightarrow> item list \<times> item list \<times> item list" where
  "consolidar_buffer history =
    (resolve_clusters (build_clusters (candidates_of Hero history)),
     resolve_clusters (build_clusters (candidates_of Board history)),
     resolve_clusters (build_clusters (candidates_of Opponent history)))"

text \<open>
  \<open>_agrupar_rivales\<close>, the search for the partner of item \<open>i\<close>: the unused item
  \<open>j > i\<close> at the least distance under the threshold, the first one on equal distance.
\<close>

definition best_partner :: "item list \<Rightarrow> bool list \<Rightarrow> nat \<Rightarrow> real \<Rightarrow> (nat \<times> real) option" where
  "best_partner items used i dist_thresh =
    foldl (\<lambda>best j.
        if used ! j then best
        else (let d = hypot (fst (items ! i) - fst (items ! j))
                            (item_y (items ! i) - item_y (items ! j))
              in if d < dist_thresh \<and> (case best of None \<Rightarrow> True | Some (b, min_d) \<Rightarrow> d < min_d)
                 then Some (j, d) else best))
      None [i + 1 ..< length items]"

text \<open>The labels of a group, with the single card of a one-card group repeated.\<close>

definition group_cards :: "item list \<Rightarrow> string list" where
  "group_cards grupo =
    (let cartas = map item_label (sort_key fst grupo)
     in if length cartas = 1 then cartas @ [cartas ! 0] else cartas)"

text \<open>The outer loop over the indices, carrying \<open>used\<close> and \<open>grupos\<close>.\<close>

fun agrupar_loop ::
  "item list \<Rightarrow> real \<Rightarrow> nat list \<Rightarrow> bool list \<Rightarrow> string list list \<Rightarrow> string list list"
where
  "agrupar_loop items dist_thresh [] used grupos = grupos"
| "agrupar_loop items dist_thresh (i # rest) used grupos =
    (if used ! i then agrupar_loop items dist_thresh rest used grupos
     else
       (let used1 = used[i := True]
        in case best_partner items used1 i dist_thresh of
             None \<Rightarrow>
               agrupar_loop items dist_thresh rest used1
                 (grupos @ [group_cards [items ! i]])
           | Some (best_idx, min_d) \<Rightarrow>
               agrupar_loop items dist_thresh rest (used1[best_idx := True])
                 (grupos @ [group_cards [items ! i, items ! best_idx]])))"

text \<open>\<open>CardDetectorPlugin._agrupar_rivales\<close>, on the list it has sorted in place.\<close>

definition agrupar_rivales :: "item list \<Rightarrow> int \<Rightarrow> string list list" where
  "agrupar_rivales items ancho =
    (if items = [] then []
     else (let sorted_items = sort_key fst items
           in agrupar_loop sorted_items (real_of_int ancho * (18 / 100))
                [0 ..< length sorted_items] (replicate (length sorted_items) False) []))"

section \<open>Card detector: one tick\<close>

text \<open>
  A detection record. \<open>conf\<close> and \<open>confidence\<close> are the two optional keys read for the
  confidence; the label is \<open>None\<close> when it is missing or not a string; the box is the
  list of its numbers (the empty list when it is missing).
\<close>

record detection =
  conf :: "real option"
  confidence :: "real option"
  label :: "string option"
  box :: "real list"

record board_row_cfg =
  y_center :: real
  height :: real
  first_x :: real
  last_x :: real

text \<open>The plugin object.\<close>

record plugin =
  board_y_min :: real
  board_y_max :: real
  hero_y_min :: real
  hero_region :: "(real \<times> real \<times> real \<times> real) option"
  board_row :: "board_row_cfg option"
  detection_history :: "frame_item list list"
  reg :: registry
  last_hero_seen_time :: real

text \<open>The keys of the \<open>game_state\<close> dict; \<open>None\<close> while a key is absent.\<close>

record game_state =
  my_cards :: "string list option"
  board :: "string list option"
  opponents_cards :: "string list list option"
  street :: "string option"
  players_in_hand :: "int option"
  active_players :: "int option"
  table_format :: "string option"
  raw_stacks_count :: "int option"
  raw_levels :: "int option"

text \<open>
  The shared state: the frame is given by its shape \<open>(alto, ancho)\<close>, \<open>None\<close> when
  there is no frame.
\<close>

record shared_state =
  frame :: "(int \<times> int) option"
  detections :: "detection list"
  hero_active :: bool
  gs :: game_state

definition clasificar_por_layout :: "plugin \<Rightarrow> real \<Rightarrow> real \<Rightarrow> int \<Rightarrow> int \<Rightarrow> ctype option" where
  "clasificar_por_layout p cx cy ancho alto =
    (if ancho \<le> 0 \<or> alto \<le> 0 then None
     else
       (let x_norm = cx / real_of_int ancho; y_norm = cy / real_of_int alto;
            in_hero =
              (case hero_region p of
                 None \<Rightarrow> False
               | Some (hx1, hy1, hx2, hy2) \<Rightarrow>
                   hx1 \<le> x_norm \<and> x_norm \<le> hx2 \<and> hy1 \<le> y_norm \<and> y_norm \<le> hy2);
            in_board =
              (case board_row p of
                 None \<Rightarrow> False
               | Some row \<Rightarrow>
                   (let by1 = y_center row - height row / (14 / 10);
                        by2 = y_center row + height row / (14 / 10)
                    in first_x row \<le> x_norm \<and> x_norm \<le> last_x row \<and>
                       by1 \<le> y_norm \<and> y_norm \<le> by2))
        in if in_hero then Some Hero else if in_board then Some Board else None))"

definition clasificar_por_fallback :: "plugin \<Rightarrow> real \<Rightarrow> int \<Rightarrow> ctype option" where
  "clasificar_por_fallback p cy alto =
    (if alto \<le> 0 then None
     else
       (let y_norm = cy / real_of_int alto
        in if y_norm \<ge> hero_y_min p then Some Hero
           else if board_y_min p \<le> y_norm \<and> y_norm \<le> board_y_max p then Some Board
           else None))"

text \<open>Step 1 of \<open>process\<close> for one detection: its entry, or \<open>None\<close> when it is skipped.\<close>

definition frame_item_of :: "plugin \<Rightarrow> int \<Rightarrow> int \<Rightarrow> detection \<Rightarrow> frame_item option" where
  "frame_item_of p ancho_img alto_img det =
    (let c = (case conf det of
                Some v \<Rightarrow> v
              | None \<Rightarrow> (case confidence det of Some v \<Rightarrow> v | None \<Rightarrow> 0));
         min_conf = (if label det = Some CARD_BACK then MIN_CONFIDENCE_BACK
                     else MIN_CONFIDENCE_NORMAL)
     in if c < min_conf then None
        else (case label det of
                None \<Rightarrow> None
              | Some lab \<Rightarrow>
                  if length (box det) \<noteq> 4 then None
                  else if \<not> es_label_carta lab then None
                  else
                    (let cx = (box det ! 0 + box det ! 2) / 2;
                         cy = (box det ! 1 + box det ! 3) / 2;
                         clasif =
                           (case clasificar_por_layout p cx cy ancho_img alto_img of
                              None \<Rightarrow> clasificar_por_fallback p cy alto_img
                            | Some ct \<Rightarrow> Some ct);
                         ct = (case clasif of Some ct \<Rightarrow> ct | None \<Rightarrow> Opponent)
                     in Some (cx, cy, lab, ct))))"

text \<open>\<open>deque(maxlen=n).append\<close>.\<close>

definition deque_append :: "nat \<Rightarrow> 'a list \<Rightarrow> 'a \<Rightarrow> 'a list" where
  "deque_append n xs x = (let ys = xs @ [x] in drop (length ys - n) ys)"

text \<open>Step 4 of \<open>process\<close> for hero and board: sorted by \<open>x\<close>, no face-down card, cut.\<close>

definition valid_cards :: "nat \<Rightarrow> item list \<Rightarrow> item list" where
  "valid_cards n raw =
    (let valid = filter (\<lambda>it. item_label it \<noteq> CARD_BACK) (sort_key fst raw)
     in if length valid > n then take n valid else valid)"

definition street_of :: "nat \<Rightarrow> string option \<Rightarrow> string" where
  "street_of nb old =
    (if nb = 0 then ''PREFLOP''
     else if nb = 3 then ''FLOP''
     else if nb = 4 then ''TURN''
     else if nb = 5 then ''RIVER''
     else (case old of Some s \<Rightarrow> s | None \<Rightarrow> ''PREFLOP''))"

text \<open>
  \<open>CardDetectorPlugin.process\<close>. \<open>t_hero\<close> is the clock reading of the sticky-hero
  step, \<open>now\<close> and \<open>clk\<close> are the readings of the registry evaluation. The \<open>debug\<close>
  dict is not modelled.
\<close>

definition process :: "plugin \<Rightarrow> shared_state \<Rightarrow> real \<Rightarrow> real \<Rightarrow> (nat \<Rightarrow> real) \<Rightarrow> plugin \<times> shared_state" where
  "process p st t_hero now clk =
    (case frame st of
       None \<Rightarrow> (p, st)
     | Some (alto_img, ancho_img) \<Rightarrow>
         (let frame_items = List.map_filter (frame_item_of p ancho_img alto_img) (detections st);
              history = deque_append BUFFER_SIZE (detection_history p) frame_items;
              raws = consolidar_buffer history;
              hero_raw = fst raws;
              board_raw = fst (snd raws);
              opp_raw = snd (snd raws);
              hero_valid = valid_cards 2 hero_raw;
              board_valid = valid_cards 5 board_raw;
              opponents_grouped = agrupar_rivales opp_raw ancho_img;
              opp_sorted = (if opp_raw = [] then opp_raw else sort_key fst opp_raw);
              my_cards_str = map item_label hero_valid;
              board_str = map item_label board_valid;
              seen = (if length my_cards_str \<ge> 2 then t_hero else last_hero_seen_time p);
              active = (if length my_cards_str \<ge> 2 then True
                        else if t_hero - last_hero_seen_time p < 3 then True
                        else hero_active st);
              nb = length board_str;
              in_hand0 = int (length opponents_grouped)
                         + (if length my_cards_str > 0 then 1 else 0);
              in_hand = (if in_hand0 < 2 \<and> nb > 0 then 2 else in_hand0);
              res = gestionar_asientos (reg p) opp_sorted ancho_img alto_img now clk;
              confirmed_opponents_seats = snd (snd res);
              seats_active = confirmed_opponents_seats
                             + (if length my_cards_str > 0 then 1 else 0);
              stack_count = (case active_players (gs st) of Some n \<Rightarrow> n | None \<Rightarrow> 0);
              final0 = max stack_count seats_active;
              final1 = (if in_hand > final0 then in_hand else final0);
              final_active = (if final1 < 2 then 2 else final1);
              fmt = detected_table_format (fst res);
              g = (gs st)\<lparr>my_cards := Some my_cards_str,
                          board := Some board_str,
                          opponents_cards := Some opponents_grouped,
                          street := Some (street_of nb (street (gs st))),
                          players_in_hand := Some in_hand,
                          active_players := Some final_active,
                          table_format :=
                            (if fmt \<noteq> DETECTANDO then Some fmt else table_format (gs st))\<rparr>
          in (p\<lparr>detection_history := history, reg := fst res, last_hero_seen_time := seen\<rparr>,
              st\<lparr>hero_active := active, gs := g\<rparr>)))"

text \<open>The plugin as \<open>__init__\<close> leaves it, and the shared state before the first tick.\<close>

definition initial_plugin :: plugin where
  "initial_plugin =
    \<lparr>board_y_min = 30 / 100, board_y_max = 60 / 100, hero_y_min = 65 / 100,
     hero_region = None, board_row = None, detection_history = [],
     reg = \<lparr>seats = [], detected_table_format = DETECTANDO\<rparr>,
     last_hero_seen_time = 0\<rparr>"

definition initial_game_state :: game_state where
  "initial_game_state =
    \<lparr>my_cards = None, board = None, opponents_cards = None, street = None,
     players_in_hand = None, active_players = None, table_format = None,
     raw_stacks_count = None, raw_levels = None\<rparr>"

definition initial_state :: shared_state where
  "initial_state =
    \<lparr>frame = None, detections = [], hero_active = False, gs = initial_game_state\<rparr>"

section \<open>Table sizer\<close>

datatype py_error = ZeroDivisionError | IndexError

definition TARGET_LABELS :: "string list" where
  "TARGET_LABELS = [''stack_text'', ''all_in_symbol'']"

text \<open>The two deques of \<open>TableSizerPlugin\<close> (length at most 15).\<close>

record table_sizer =
  history_count :: "int list"
  history_levels :: "int list"

text \<open>The loop of \<open>_contar_niveles_verticales\<close>, carrying \<open>(niveles, ultimo_y)\<close>.\<close>

fun niveles_loop :: "real list \<Rightarrow> int \<times> real \<Rightarrow> int \<times> real" where
  "niveles_loop [] acc = acc"
| "niveles_loop (y # ys) (niveles, ultimo_y) =
    (if ultimo_y = - 1 then niveles_loop ys (1, y)
     else if \<bar>y - ultimo_y\<bar> > 5 / 100 then niveles_loop ys (niveles + 1, y)
     else niveles_loop ys (niveles, ultimo_y))"

definition contar_niveles_verticales :: "real list \<Rightarrow> int" where
  "contar_niveles_verticales puntos_y =
    (if puntos_y = [] then 0 else fst (niveles_loop (sort puntos_y) (0, - 1)))"

text \<open>
  The normalised centre of a box, with Python's order of evaluation: \<open>box[0]\<close>,
  \<open>box[2]\<close>, the division by \<open>w\<close>, then \<open>box[1]\<close>, \<open>box[3]\<close>, the division by \<open>h\<close>.
\<close>

definition stack_centre :: "int \<Rightarrow> int \<Rightarrow> real list \<Rightarrow> py_error + point" where
  "stack_centre w h bx =
    (if length bx < 3 then Inl IndexError
     else if w = 0 then Inl ZeroDivisionError
     else if length bx < 4 then Inl IndexError
     else if h = 0 then Inl ZeroDivisionError
     else Inr (((bx ! 0 + bx ! 2) / 2) / real_of_int w, ((bx ! 1 + bx ! 3) / 2) / real_of_int h))"

text \<open>Step 1 of \<open>TableSizerPlugin.process\<close>: the loop over the detections.\<close>

fun collect_stacks :: "int \<Rightarrow> int \<Rightarrow> detection list \<Rightarrow> point list \<Rightarrow> py_error + point list" where
  "collect_stacks w h [] stacks_centers = Inr stacks_centers"
| "collect_stacks w h (det # rest) stacks_centers =
    (if (case conf det of Some v \<Rightarrow> v | None \<Rightarrow> 0) < 30 / 100
     then collect_stacks w h rest stacks_centers
     else if (case label det of Some lab \<Rightarrow> lab \<in> set TARGET_LABELS | None \<Rightarrow> False)
             \<and> box det \<noteq> []
     then (case stack_centre w h (box det) of
             Inl e \<Rightarrow> Inl e
           | Inr c \<Rightarrow>
               if list_ex (\<lambda>ex. hypot (fst c - fst ex) (snd c - snd ex) < 5 / 100) stacks_centers
               then collect_stacks w h rest stacks_centers
               else collect_stacks w h rest (stacks_centers @ [c]))
     else collect_stacks w h rest stacks_centers)"

text \<open>Step 4: the format decided from the stabilised count and levels.\<close>

definition sizer_format :: "int \<Rightarrow> int \<Rightarrow> string" where
  "sizer_format final_count final_levels =
    (if final_count > 6 then ''9-Max''
     else if final_levels \<ge> 5 then ''9-Max''
     else ''6-Max'')"

text \<open>
  \<open>TableSizerPlugin.process\<close>; \<open>Inl\<close> is the exception that leaves the method. The
  \<open>debug\<close> dict and the debug image of step 6 are not modelled.
\<close>

definition table_sizer_process ::
  "table_sizer \<Rightarrow> shared_state \<Rightarrow> py_error + (table_sizer \<times> shared_state)"
where
  "table_sizer_process ts st =
    (case frame st of
       None \<Rightarrow> Inr (ts, st)
     | Some (h, w) \<Rightarrow>
         (case collect_stacks w h (detections st) [] of
            Inl e \<Rightarrow> Inl e
          | Inr stacks_centers \<Rightarrow>
              (let stacks_y = map snd stacks_centers;
                   count0 = int (length stacks_centers);
                   hero_visible = list_ex (\<lambda>y. y > 75 / 100) stacks_y;
                   count1 = (if \<not> hero_visible \<and> count0 > 0 then count0 + 1 else count0);
                   cnt = (if count1 < 2 then 2 else count1);
                   niveles = contar_niveles_verticales stacks_y;
                   hc = deque_append 15 (history_count ts) cnt;
                   hl = deque_append 15 (history_levels ts) niveles
               in case (most_common hc, most_common hl) of
                    (Some final_count, Some final_levels) \<Rightarrow>
                      Inr (ts\<lparr>history_count := hc, history_levels := hl\<rparr>,
                           st\<lparr>gs := (gs st)\<lparr>active_players := Some final_count,
                                             table_format :=
                                               Some (sizer_format final_count final_levels),
                                             raw_stacks_count := Some cnt,
                                             raw_levels := Some niveles\<rparr>\<rparr>)
                  | _ \<Rightarrow> Inl IndexError)))"

section \<open>The stages that write the table format, in a run\<close>

record world =
  sizer :: table_sizer
  detector :: plugin
  shared :: shared_state

text \<open>
  What happens to the shared state between two stages: the orchestrator stores a frame
  and the vision stage stores detections (any values), or one of the two stages runs.
  An exception of a stage is caught by the orchestrator and the state stays as it was.
\<close>

datatype event =
    Capture "(int \<times> int) option" "detection list"
  | RunTableSizer
  | RunCardDetector real real "nat \<Rightarrow> real"

fun step :: "world \<Rightarrow> event \<Rightarrow> world" where
  "step w (Capture f ds) = w\<lparr>shared := (shared w)\<lparr>frame := f, detections := ds\<rparr>\<rparr>"
| "step w RunTableSizer =
    (case table_sizer_process (sizer w) (shared w) of
       Inl e \<Rightarrow> w
     | Inr (ts, st) \<Rightarrow> w\<lparr>sizer := ts, shared := st\<rparr>)"
| "step w (RunCardDetector t_hero now clk) =
    (case process (detector w) (shared w) t_hero now clk of
       (p, st) \<Rightarrow> w\<lparr>detector := p, shared := st\<rparr>)"

definition run :: "world \<Rightarrow> event list \<Rightarrow> world" where
  "run w evs = foldl step w evs"

definition initial_sizer :: table_sizer where
  "initial_sizer = \<lparr>history_count = [], history_levels = []\<rparr>"

definition initial_world :: world where
  "initial_world = \<lparr>sizer = initial_sizer, detector = initial_plugin, shared = initial_state\<rparr>"

text \<open>The published format is absent or a name of the layout table.\<close>

definition published_ok :: "string option \<Rightarrow> bool" where
  "published_ok tf = (case tf of None \<Rightarrow> True | Some n \<Rightarrow> n \<in> fst ` set GG_LAYOUTS)"

text \<open>The detector's own format is the sentinel or a name of the layout table.\<close>

definition detected_ok :: "string \<Rightarrow> bool" where
  "detected_ok fmt = (fmt = DETECTANDO \<or> fmt \<in> fst ` set GG_LAYOUTS)"

section \<open>Example data\<close>

text \<open>A clock that reads \<open>t\<close> at every call.\<close>

definition clock_at :: "real \<Rightarrow> nat \<Rightarrow> real" where
  "clock_at t k = t"

text \<open>Seven matches of one seat after its creation.\<close>

definition example_matches :: "(real \<times> real \<times> real) list" where
  "example_matches =
    [(11, 20, 1), (10, 21, 2), (10, 20, 3), (9, 20, 4), (10, 19, 5), (10, 20, 6), (10, 20, 7)]"

text \<open>A registry holding one CONFIRMED seat.\<close>

definition example_registry :: registry where
  "example_registry =
    \<lparr>seats = [\<lparr>center_x = 10, center_y = 20, last_seen_time = 7, detection_count = 8,
                is_confirmed = True\<rparr>],
     detected_table_format = DETECTANDO\<rparr>"

text \<open>
  A registry with a CANDIDATE seat last matched at time 0, a CONFIRMED seat last matched
  at time 10 and a CONFIRMED seat last matched at time -400.
\<close>

definition stale_candidate :: seat where
  "stale_candidate =
    \<lparr>center_x = 100, center_y = 50, last_seen_time = 0, detection_count = 3,
     is_confirmed = False\<rparr>"

definition recent_confirmed :: seat where
  "recent_confirmed =
    \<lparr>center_x = 300, center_y = 60, last_seen_time = 10, detection_count = 20,
     is_confirmed = True\<rparr>"

definition stale_confirmed :: seat where
  "stale_confirmed =
    \<lparr>center_x = 500, center_y = 70, last_seen_time = - 400, detection_count = 9,
     is_confirmed = True\<rparr>"

definition aged_registry :: registry where
  "aged_registry =
    \<lparr>seats = [stale_candidate, recent_confirmed, stale_confirmed],
     detected_table_format = DETECTANDO\<rparr>"

text \<open>One confirmed point far above every seat of every layout.\<close>

definition far_points :: "point list" where
  "far_points = [(50 / 100, 0)]"

text \<open>One confirmed point at the same distance from a seat of 8-Max and a seat of 9-Max.\<close>

definition tie_points :: "point list" where
  "tie_points = [(35 / 100, 9 / 100)]"

definition tie_score :: real where
  "tie_score = sqrt (194 / 10000) / 2 + 7 / 10"

text \<open>The hero's own position as the only confirmed point.\<close>

definition hero_only :: "point list" where
  "hero_only = [(50 / 100, 68 / 100)]"

text \<open>
  Two clusters with centroids (0, 0) and (40, 0), and a detection at (25, 0) that is
  within the tolerance of both.
\<close>

definition cluster_a :: cluster where
  "cluster_a = \<lparr>labels = [''Ah''], sum_x = 0, sum_y = 0, count = 1\<rparr>"

definition cluster_b :: cluster where
  "cluster_b = \<lparr>labels = [''Kd''], sum_x = 40, sum_y = 0, count = 1\<rparr>"

definition between_item :: item where
  "between_item = (25, 0, ''Qs'')"

text \<open>The distance from a detection to the centroid of a cluster.\<close>

definition centroid_distance :: "cluster \<Rightarrow> item \<Rightarrow> real" where
  "centroid_distance cl it =
    hypot (fst it - sum_x cl / real_of_int (count cl))
          (item_y it - sum_y cl / real_of_int (count cl))"

text \<open>
  A 640 by 480 frame with the hero's ace and king and one face-down opponent card, seen
  for the second time in a row.
\<close>

definition demo_detections :: "detection list" where
  "demo_detections =
    [\<lparr>conf = Some (9 / 10), confidence = None, label = Some ''Kd'', box = [150, 380, 170, 420]\<rparr>,
     \<lparr>conf = Some (9 / 10), confidence = None, label = Some ''Ah'', box = [90, 380, 110, 420]\<rparr>,
     \<lparr>conf = Some (3 / 10), confidence = None, label = Some ''card_back'',
      box = [290, 80, 310, 120]\<rparr>]"

definition demo_plugin :: plugin where
  "demo_plugin =
    initial_plugin\<lparr>detection_history :=
      [[(160, 400, ''Kd'', Hero), (100, 400, ''Ah'', Hero), (300, 100, ''card_back'', Opponent)]]\<rparr>"

definition demo_state :: shared_state where
  "demo_state = initial_state\<lparr>frame := Some (480, 640), detections := demo_detections\<rparr>"

text \<open>An empty frame of 640 by 480 arrives, then the two stages run.\<close>

definition first_tick :: "event list" where
  "first_tick = [Capture (Some (480, 640)) [], RunTableSizer, RunCardDetector 1 1 (clock_at 1)]"

section \<open>Seat: promotion\<close>

lemma update_count: "detection_count (update s x y t) = detection_count s + 1"
  by (simp add: update_def Let_def)

lemma update_confirmed:
  "is_confirmed (update s x y t) =
    (is_confirmed s \<or> SEAT_CREATION_FRAMES \<le> detection_count s + 1)"
  by (simp add: update_def Let_def)

lemma seat_trace_length: "length (seat_trace s obs) = length obs"
  by (induction s obs rule: seat_trace.induct) simp_all

lemma seat_trace_count:
  "k < length obs \<Longrightarrow>
    detection_count (seat_trace s obs ! k) = detection_count s + 1 + int k"
proof (induction s obs arbitrary: k rule: seat_trace.induct)
  case (1 s)
  then show ?case by simp
next
  case (2 s x y t obs)
  show ?case
  proof (cases k)
    case 0
    then show ?thesis by (simp add: update_count)
  next
    case (Suc j)
    with 2 show ?thesis by (simp add: update_count)
  qed
qed

lemma seat_trace_confirmed:
  "k < length obs \<Longrightarrow>
    is_confirmed (seat_trace s obs ! k) =
      (is_confirmed s \<or> SEAT_CREATION_FRAMES \<le> detection_count s + 1 + int k)"
proof (induction s obs arbitrary: k rule: seat_trace.induct)
  case (1 s)
  then show ?case by simp
next
  case (2 s x y t obs)
  show ?case
  proof (cases k)
    case 0
    then show ?thesis by (simp add: update_confirmed)
  next
    case (Suc j)
    with 2 show ?thesis
      by (auto simp add: update_confirmed update_count SEAT_CREATION_FRAMES_def)
  qed
qed

lemma demotions_trace:
  "demotions (is_confirmed s) (map is_confirmed (seat_trace s obs)) = 0"
  by (induction s obs rule: seat_trace.induct) (simp_all add: update_confirmed)

lemma promotions_confirmed:
  "is_confirmed s \<Longrightarrow> promotions True (map is_confirmed (seat_trace s obs)) = 0"
proof (induction s obs rule: seat_trace.induct)
  case (1 s)
  then show ?case by simp
next
  case (2 s x y t obs)
  then show ?case by (simp add: update_confirmed)
qed

lemma promotions_trace:
  "\<not> is_confirmed s \<Longrightarrow>
    promotions False (map is_confirmed (seat_trace s obs)) =
      (if SEAT_CREATION_FRAMES \<le> detection_count s + int (length obs) \<and> obs \<noteq> [] then 1 else 0)"
proof (induction s obs rule: seat_trace.induct)
  case (1 s)
  then show ?case by simp
next
  case (2 s x y t obs)
  show ?case
  proof (cases "is_confirmed (update s x y t)")
    case True
    then have "SEAT_CREATION_FRAMES \<le> detection_count s + 1"
      using 2(2) by (simp add: update_confirmed)
    then show ?thesis
      using True promotions_confirmed [OF True, of obs] by simp
  next
    case False
    then have small: "\<not> SEAT_CREATION_FRAMES \<le> detection_count s + 1"
      by (simp add: update_confirmed)
    have "promotions False (map is_confirmed (seat_trace (update s x y t) obs)) =
        (if SEAT_CREATION_FRAMES \<le> detection_count (update s x y t) + int (length obs) \<and> obs \<noteq> []
         then 1 else 0)"
      using 2(1) False by simp
    then show ?thesis
      using False small by (auto simp add: update_count)
  qed
qed

section \<open>Seat registry: the phases of an evaluation\<close>

lemma collect_seats_filter:
  "collect_seats now ancho_img alto_img ss =
    (filter (keep_seat now) ss,
     map (normalise ancho_img alto_img) (filter is_confirmed (filter (keep_seat now) ss)))"
  by (induction ss) (simp_all add: keep_seat_def seat_age_def normalise_def Let_def)

lemma find_seat_bound:
  "find_seat ancho_img cx cy ss i best = Some (j, d) \<Longrightarrow>
    (\<And>j' d'. best = Some (j', d') \<Longrightarrow> j' < i + length ss) \<Longrightarrow> j < i + length ss"
proof (induction ss arbitrary: i best)
  case Nil
  then show ?case by simp
next
  case (Cons s ss)
  let ?dx = "\<bar>center_x s - cx\<bar>"
  from Cons.prems(1) consider
      (new) "find_seat ancho_img cx cy ss (i + 1) (Some (i, ?dx)) = Some (j, d)"
    | (old) "find_seat ancho_img cx cy ss (i + 1) best = Some (j, d)"
    by (auto simp add: Let_def split: if_splits)
  then show ?case
  proof cases
    case new
    have "j < (i + 1) + length ss"
      by (rule Cons.IH [OF new]) simp
    then show ?thesis by simp
  next
    case old
    have "j < (i + 1) + length ss"
    proof (rule Cons.IH [OF old])
      fix j' d' assume "best = Some (j', d')"
      from Cons.prems(2) [OF this] show "j' < i + 1 + length ss" by simp
    qed
    then show ?thesis by simp
  qed
qed

lemma find_seat_in_range:
  "find_seat ancho_img cx cy ss 0 None = Some (j, d) \<Longrightarrow> j < length ss"
  using find_seat_bound [of ancho_img cx cy ss 0 None j d] by simp

lemma match_clusters_keeps:
  "length seats0 \<le> length (match_clusters ancho_img clk k cs seats0) \<and>
   (\<forall>i < length seats0. is_confirmed (seats0 ! i) \<longrightarrow>
      is_confirmed (match_clusters ancho_img clk k cs seats0 ! i))"
proof (induction cs arbitrary: k seats0)
  case Nil
  show ?case by simp
next
  case (Cons c cs)
  obtain cx cy where c: "c = (cx, cy)" by (cases c)
  let ?next = "case find_seat ancho_img cx cy seats0 0 None of
         Some (i, min_dist) \<Rightarrow> seats0[i := update (seats0 ! i) cx cy (clk k)]
       | None \<Rightarrow> seats0 @ [Seat cx cy (clk k)]"
  have len: "length seats0 \<le> length ?next"
    by (simp split: option.splits prod.splits)
  have conf: "\<forall>i < length seats0. is_confirmed (seats0 ! i) \<longrightarrow> is_confirmed (?next ! i)"
  proof (intro allI impI)
    fix i assume i: "i < length seats0" and ci: "is_confirmed (seats0 ! i)"
    show "is_confirmed (?next ! i)"
    proof (cases "find_seat ancho_img cx cy seats0 0 None")
      case None
      then show ?thesis using i ci by (simp add: nth_append)
    next
      case (Some a)
      obtain j d where a: "a = (j, d)" by (cases a)
      show ?thesis
      proof (cases "j = i")
        case True
        then show ?thesis using Some a i ci by (simp add: update_confirmed)
      next
        case False
        then show ?thesis using Some a i ci by simp
      qed
    qed
  qed
  have step: "match_clusters ancho_img clk k (c # cs) seats0 =
      match_clusters ancho_img clk (k + 1) cs ?next"
    by (simp add: c)
  have ih1: "length ?next \<le> length (match_clusters ancho_img clk (k + 1) cs ?next)"
    using Cons.IH [where k = "k + 1" and ?seats0.0 = ?next] by blast
  have ih2: "\<forall>i < length ?next. is_confirmed (?next ! i) \<longrightarrow>
      is_confirmed (match_clusters ancho_img clk (k + 1) cs ?next ! i)"
    using Cons.IH [where k = "k + 1" and ?seats0.0 = ?next] by blast
  have "length seats0 \<le> length (match_clusters ancho_img clk (k + 1) cs ?next)"
    using len ih1 by (rule le_trans)
  moreover have "\<forall>i < length seats0. is_confirmed (seats0 ! i) \<longrightarrow>
      is_confirmed (match_clusters ancho_img clk (k + 1) cs ?next ! i)"
  proof (intro allI impI)
    fix i assume i: "i < length seats0" and ci: "is_confirmed (seats0 ! i)"
    from i len have "i < length ?next" by (rule less_le_trans)
    moreover from conf i ci have "is_confirmed (?next ! i)" by blast
    ultimately show "is_confirmed (match_clusters ancho_img clk (k + 1) cs ?next ! i)"
      using ih2 by blast
  qed
  ultimately show ?case unfolding step by blast
qed

lemma gestionar_asientos_seats:
  "seats (fst (gestionar_asientos r opp_raw ancho_img alto_img now clk)) =
    (if ancho_img \<le> 0 \<or> alto_img \<le> 0 then seats r
     else filter (keep_seat now) (matched_seats r opp_raw ancho_img clk))"
  by (simp add: gestionar_asientos_def collect_seats_filter)

text \<open>The trust state of every seat agrees with its match count.\<close>

lemma update_agrees:
  "is_confirmed s = (SEAT_CREATION_FRAMES \<le> detection_count s) \<Longrightarrow>
    is_confirmed (update s x y t) = (SEAT_CREATION_FRAMES \<le> detection_count (update s x y t))"
  by (auto simp add: update_confirmed update_count)

lemma match_clusters_agrees:
  "\<forall>s \<in> set seats0. is_confirmed s = (SEAT_CREATION_FRAMES \<le> detection_count s) \<Longrightarrow>
    \<forall>s \<in> set (match_clusters ancho_img clk k cs seats0).
      is_confirmed s = (SEAT_CREATION_FRAMES \<le> detection_count s)"
proof (induction cs arbitrary: k seats0)
  case Nil
  then show ?case by simp
next
  case (Cons c cs)
  obtain cx cy where c: "c = (cx, cy)" by (cases c)
  let ?next = "case find_seat ancho_img cx cy seats0 0 None of
         Some (i, min_dist) \<Rightarrow> seats0[i := update (seats0 ! i) cx cy (clk k)]
       | None \<Rightarrow> seats0 @ [Seat cx cy (clk k)]"
  have "\<forall>s \<in> set ?next. is_confirmed s = (SEAT_CREATION_FRAMES \<le> detection_count s)"
  proof (cases "find_seat ancho_img cx cy seats0 0 None")
    case None
    then show ?thesis
      using Cons.prems by (simp add: Seat_def SEAT_CREATION_FRAMES_def)
  next
    case (Some a)
    obtain i d where a: "a = (i, d)" by (cases a)
    from Some a have i: "i < length seats0" by (simp add: find_seat_in_range)
    then have "seats0 ! i \<in> set seats0" by simp
    with Cons.prems have
      "is_confirmed (update (seats0 ! i) cx cy (clk k)) =
        (SEAT_CREATION_FRAMES \<le> detection_count (update (seats0 ! i) cx cy (clk k)))"
      by (intro update_agrees) blast
    moreover have "set (seats0[i := update (seats0 ! i) cx cy (clk k)]) \<subseteq>
        insert (update (seats0 ! i) cx cy (clk k)) (set seats0)"
      by (rule set_update_subset_insert)
    ultimately show ?thesis
      using Cons.prems Some a by auto
  qed
  from Cons.IH [OF this, of "k + 1"] show ?case by (simp add: c)
qed

lemma gestionar_asientos_agrees:
  "\<forall>s \<in> set (seats r). is_confirmed s = (SEAT_CREATION_FRAMES \<le> detection_count s) \<Longrightarrow>
    \<forall>s \<in> set (seats (fst (gestionar_asientos r opp_raw ancho_img alto_img now clk))).
      is_confirmed s = (SEAT_CREATION_FRAMES \<le> detection_count s)"
  using match_clusters_agrees [of "seats r" ancho_img clk 0 "current_clusters_of opp_raw ancho_img"]
  by (auto simp add: gestionar_asientos_seats matched_seats_def)

section \<open>Clamping\<close>

lemma clamp_origin:
  fixes n a :: int
  shows "0 < n \<Longrightarrow> 0 \<le> max 0 (min a (n - 1)) \<and> max 0 (min a (n - 1)) \<le> n - 1"
  by auto

lemma clamp_extent:
  fixes n s b :: int
  shows "s \<le> n - 1 \<Longrightarrow> 1 \<le> max 1 (min b (n - s)) \<and> max 1 (min b (n - s)) \<le> n - s"
  by auto

section \<open>Classifier: the score of one layout\<close>

lemma match_points_eq:
  "match_points layout pts (e, m) =
    (e + sum_list (map (min_d_of layout) (filter (matched layout) pts)),
     m + matches_of layout pts)"
  by (induction pts arbitrary: e m) (simp_all add: matched_def matches_of_def Let_def)

lemma layout_score_eq:
  "layout_score layout pts =
    (if 0 < matches_of layout pts then
       Some (sum_list (map (min_d_of layout) (filter (matched layout) pts))
               / real (matches_of layout pts)
             + real_of_int (int (length pts) - int (matches_of layout pts)) * 5
             + real_of_int (int (length layout) - int (matches_of layout pts)) * (1 / 10))
     else None)"
  by (simp add: layout_score_def match_points_eq Let_def)

lemma matches_le: "matches_of layout pts \<le> length pts"
  by (simp add: matches_of_def)

lemma matches_unmatched:
  "p \<in> set pts \<Longrightarrow> \<not> matched layout p \<Longrightarrow> matches_of layout pts < length pts"
  unfolding matches_of_def by (rule length_filter_less)

lemma hypot_nonneg: "0 \<le> hypot a b"
  by (simp add: hypot_def)

lemma min_list_nonneg:
  fixes xs :: "real list"
  shows "xs \<noteq> [] \<Longrightarrow> \<forall>x \<in> set xs. 0 \<le> x \<Longrightarrow> 0 \<le> min_list xs"
  by (simp add: min_list_Min)

lemma min_d_nonneg: "layout \<noteq> [] \<Longrightarrow> 0 \<le> min_d_of layout p"
  unfolding min_d_of_def
  by (rule min_list_nonneg) (auto simp add: hypot_nonneg)

lemma error_nonneg:
  "layout \<noteq> [] \<Longrightarrow> 0 \<le> sum_list (map (min_d_of layout) (filter (matched layout) pts))"
  by (rule sum_list_nonneg) (auto simp add: min_d_nonneg)

text \<open>A lower bound of the score: the two penalties alone.\<close>

lemma layout_score_lower:
  assumes "layout \<noteq> []" and "layout_score layout pts = Some t"
  shows "real_of_int (int (length pts) - int (matches_of layout pts)) * 5
       + real_of_int (int (length layout) - int (matches_of layout pts)) * (1 / 10) \<le> t"
proof -
  from assms(2) have m: "0 < matches_of layout pts"
    by (simp add: layout_score_eq split: if_splits)
  have "0 \<le> sum_list (map (min_d_of layout) (filter (matched layout) pts))
          / real (matches_of layout pts)"
    using error_nonneg [OF assms(1)] by simp
  with assms(2) m show ?thesis
    by (simp add: layout_score_eq)
qed

text \<open>A layout with at least as many seats as there are points never scores below zero.\<close>

lemma layout_score_nonneg:
  assumes "layout \<noteq> []" and "length pts \<le> length layout"
  shows "not_better 0 pts layout"
proof (cases "layout_score layout pts")
  case None
  then show ?thesis by (simp add: not_better_def)
next
  case (Some t)
  have m: "matches_of layout pts \<le> length pts" by (rule matches_le)
  have "0 \<le> real_of_int (int (length pts) - int (matches_of layout pts)) * 5"
    using m by simp
  moreover have "0 \<le> real_of_int (int (length layout) - int (matches_of layout pts)) * (1 / 10)"
    using m assms(2) by simp
  ultimately have "0 \<le> t"
    using layout_score_lower [OF assms(1) Some] by linarith
  with Some show ?thesis by (simp add: not_better_def)
qed

text \<open>A layout that leaves a point unmatched scores above 3, for up to ten points.\<close>

lemma layout_score_unmatched:
  assumes "layout \<noteq> []" and "p \<in> set pts" and "\<not> matched layout p"
    and "length pts \<le> 10"
  shows "beaten_by 3 pts layout"
proof (cases "layout_score layout pts")
  case None
  then show ?thesis by (simp add: beaten_by_def)
next
  case (Some t)
  let ?m = "matches_of layout pts"
  have m: "?m < length pts" using assms(2,3) by (rule matches_unmatched)
  then have "int (length pts) - int ?m \<ge> 1" by simp
  then have a: "5 \<le> real_of_int (int (length pts) - int ?m) * 5" by simp
  have "int (length layout) - int ?m \<ge> - 10" using m assms(4) by simp
  then have "real_of_int (int (length layout) - int ?m) \<ge> - 10"
    by (metis of_int_le_iff of_int_minus of_int_numeral)
  then have b: "- 1 \<le> real_of_int (int (length layout) - int ?m) * (1 / 10)" by simp
  from a b layout_score_lower [OF assms(1) Some] have "3 < t" by linarith
  with Some show ?thesis by (simp add: beaten_by_def)
qed

section \<open>Classifier: distances through squares\<close>

lemma sqrt_less_const: "0 \<le> c \<Longrightarrow> sqrt x < c \<longleftrightarrow> x < c * c"
  using real_sqrt_less_iff [of x "c * c"] by simp

lemma hypot_sq_dist: "hypot (fst p - fst q) (snd p - snd q) = sqrt (sq_dist p q)"
  by (simp add: hypot_def sq_dist_def)

lemma min_list_sqrt:
  "xs \<noteq> [] \<Longrightarrow> min_list (map sqrt xs) = sqrt (min_list xs)"
proof (induction xs rule: min_list.induct)
  case (1 x xs)
  show ?case
  proof (cases xs)
    case Nil
    then show ?thesis by simp
  next
    case (Cons y ys)
    with 1 have "min_list (map sqrt xs) = sqrt (min_list xs)" by simp
    with Cons show ?thesis by (simp add: min_def)
  qed
next
  case 2
  then show ?case by simp
qed

lemma min_d_of_sqrt:
  "layout \<noteq> [] \<Longrightarrow> min_d_of layout p = sqrt (min_list (map (sq_dist p) layout))"
proof -
  assume ne: "layout \<noteq> []"
  have "map (\<lambda>(lx, ly). hypot (fst p - lx) (snd p - ly)) layout =
      map sqrt (map (sq_dist p) layout)"
    by (simp add: hypot_def sq_dist_def case_prod_beta)
  then show ?thesis
    using ne by (simp only: min_d_of_def) (simp add: min_list_sqrt del: map_map)
qed

lemma matched_iff:
  "layout \<noteq> [] \<Longrightarrow> matched layout p \<longleftrightarrow> min_list (map (sq_dist p) layout) < 225 / 10000"
  using sqrt_less_const [of "15 / 100" "min_list (map (sq_dist p) layout)"]
  by (simp add: matched_def min_d_of_sqrt)

lemma sq_dist_nonneg: "0 \<le> sq_dist p q"
  by (simp add: sq_dist_def)

lemma min_d_own: "p \<in> set layout \<Longrightarrow> min_d_of layout p = 0"
proof -
  assume p: "p \<in> set layout"
  then have ne: "layout \<noteq> []" by auto
  have "Min (set (map (sq_dist p) layout)) = 0"
  proof (rule Min_eqI)
    show "finite (set (map (sq_dist p) layout))" by simp
    show "\<And>y. y \<in> set (map (sq_dist p) layout) \<Longrightarrow> 0 \<le> y"
      by (auto simp add: sq_dist_nonneg)
    show "0 \<in> set (map (sq_dist p) layout)"
      using p by (force simp add: sq_dist_def image_iff)
  qed
  then show ?thesis
    using ne by (simp add: min_d_of_sqrt min_list_Min)
qed

text \<open>Points taken from the layout itself all match it, with no error.\<close>

lemma layout_score_own:
  assumes "pts \<noteq> []" and "set pts \<subseteq> set layout"
  shows "layout_score layout pts =
    Some (real_of_int (int (length layout) - int (length pts)) * (1 / 10))"
proof -
  have all: "\<forall>p \<in> set pts. matched layout p"
    using assms(2) by (auto simp add: matched_def min_d_own)
  then have f: "filter (matched layout) pts = pts" by simp
  have z: "map (min_d_of layout) pts = map (\<lambda>p. 0) pts"
    using assms(2) by (auto simp add: min_d_own)
  have s: "sum_list (map (min_d_of layout) pts) = 0"
    unfolding z by simp
  have m: "matches_of layout pts = length pts"
    by (simp add: matches_of_def f)
  show ?thesis
    using assms(1) by (simp add: layout_score_eq m f s)
qed

text \<open>When every point matches, the score is the empty-seat term plus less than 0.15.\<close>

lemma layout_score_all_matched:
  assumes "layout \<noteq> []" and "pts \<noteq> []" and "\<forall>p \<in> set pts. matched layout p"
  shows "\<exists>s. layout_score layout pts = Some s \<and>
    s < 15 / 100 + real_of_int (int (length layout) - int (length pts)) * (1 / 10)"
proof -
  from assms(3) have f: "filter (matched layout) pts = pts" by simp
  have m: "matches_of layout pts = length pts"
    by (simp add: matches_of_def f)
  have "sum_list (map (min_d_of layout) pts) < sum_list (map (\<lambda>p. 15 / 100) pts)"
    using assms(2,3)
  proof (induction pts)
    case Nil
    then show ?case by simp
  next
    case (Cons p ps)
    then show ?case by (cases ps) (auto simp add: matched_def)
  qed
  then have "sum_list (map (min_d_of layout) pts) < real (length pts) * (15 / 100)"
    by (simp add: sum_list_triv)
  then have "sum_list (map (min_d_of layout) pts) / real (length pts) < 15 / 100"
    using assms(2) by (simp add: pos_divide_less_eq mult.commute)
  then show ?thesis
    using assms(2) by (simp add: layout_score_eq m f)
qed

section \<open>Classifier: the loop over the layouts\<close>

lemma layouts_loop_step:
  "layouts_loop (x # rest) pts (m0, s0) =
    (case layout_score (snd x) pts of
       None \<Rightarrow> layouts_loop rest pts (m0, s0)
     | Some score \<Rightarrow>
         if below score s0 then layouts_loop rest pts (fst x, Some score)
         else layouts_loop rest pts (m0, s0))"
  by (cases x) (simp split: option.splits)

text \<open>Layouts that score above \<open>s\<close> leave the running minimum above \<open>s\<close>.\<close>

lemma layouts_loop_pre:
  "\<forall>x \<in> set pre. beaten_by s pts (snd x) \<Longrightarrow> below s s0 \<Longrightarrow>
    \<exists>m1 s1. layouts_loop (pre @ rest) pts (m0, s0) = layouts_loop rest pts (m1, s1) \<and> below s s1"
proof (induction pre arbitrary: m0 s0)
  case Nil
  then show ?case by auto
next
  case (Cons x pre)
  show ?case
  proof (cases "layout_score (snd x) pts")
    case None
    with Cons.IH [of s0 m0] Cons.prems show ?thesis
      by (simp add: layouts_loop_step)
  next
    case (Some t)
    with Cons.prems(1) have st: "s < t" by (simp add: beaten_by_def)
    show ?thesis
    proof (cases "below t s0")
      case True
      have "below s (Some t)" using st by (simp add: below_def)
      with Cons.IH [of "Some t" "fst x"] Cons.prems(1) Some True show ?thesis
        by (simp add: layouts_loop_step)
    next
      case False
      with Cons.IH [of s0 m0] Cons.prems Some show ?thesis
        by (simp add: layouts_loop_step)
    qed
  qed
qed

text \<open>Layouts that do not score below the running minimum leave it as it is.\<close>

lemma layouts_loop_post:
  "\<forall>x \<in> set post. not_better s pts (snd x) \<Longrightarrow>
    layouts_loop post pts (m, Some s) = (m, Some s)"
proof (induction post)
  case Nil
  show ?case by simp
next
  case (Cons x post)
  then show ?case
    by (cases "layout_score (snd x) pts")
       (auto simp add: layouts_loop_step not_better_def below_def)
qed

text \<open>
  The winner: a layout whose score is below the score of every earlier layout and not
  above the score of any later one.
\<close>

lemma layouts_loop_winner:
  assumes "\<forall>x \<in> set pre. beaten_by s pts (snd x)"
    and "layout_score layout pts = Some s"
    and "\<forall>x \<in> set post. not_better s pts (snd x)"
  shows "layouts_loop (pre @ (nombre, layout) # post) pts (m0, None) = (nombre, Some s)"
proof -
  have "below s None" by (simp add: below_def)
  with layouts_loop_pre [OF assms(1), of None "(nombre, layout) # post" m0]
  obtain m1 s1 where
    pre: "layouts_loop (pre @ (nombre, layout) # post) pts (m0, None) =
          layouts_loop ((nombre, layout) # post) pts (m1, s1)"
    and b: "below s s1"
    by blast
  have "layouts_loop ((nombre, layout) # post) pts (m1, s1) =
      layouts_loop post pts (nombre, Some s)"
    using assms(2) b by simp
  with pre layouts_loop_post [OF assms(3)] show ?thesis by simp
qed

text \<open>The final minimum is above \<open>c\<close> exactly when every layout scores above \<open>c\<close>.\<close>

lemma layouts_loop_above:
  "below c (snd (layouts_loop ls pts (m0, s0))) \<longleftrightarrow>
    below c s0 \<and> (\<forall>x \<in> set ls. beaten_by c pts (snd x))"
proof (induction ls arbitrary: m0 s0)
  case Nil
  show ?case by simp
next
  case (Cons x ls)
  show ?case
  proof (cases "layout_score (snd x) pts")
    case None
    with Cons.IH [of m0 s0] show ?thesis
      by (simp add: layouts_loop_step beaten_by_def)
  next
    case (Some t)
    show ?thesis
    proof (cases "below t s0")
      case True
      with Cons.IH [of "fst x" "Some t"] Some show ?thesis
        by (auto simp add: layouts_loop_step beaten_by_def below_def split: option.splits)
    next
      case False
      with Cons.IH [of m0 s0] Some show ?thesis
        by (auto simp add: layouts_loop_step beaten_by_def below_def split: option.splits)
    qed
  qed
qed

text \<open>Once a score has been recorded, the name recorded with it is a name of the table.\<close>

lemma layouts_loop_name:
  "s0 = None \<or> m0 \<in> fst ` set ls \<union> N \<Longrightarrow>
    snd (layouts_loop ls pts (m0, s0)) = None \<or>
    fst (layouts_loop ls pts (m0, s0)) \<in> fst ` set ls \<union> N"
proof (induction ls arbitrary: m0 s0 N)
  case Nil
  then show ?case by simp
next
  case (Cons x ls)
  have sub: "fst ` set ls \<union> insert (fst x) N = fst ` set (x # ls) \<union> N" by auto
  show ?case
  proof (cases "layout_score (snd x) pts")
    case None
    have "s0 = None \<or> m0 \<in> fst ` set ls \<union> insert (fst x) N"
      using Cons.prems by auto
    from Cons.IH [OF this] None show ?thesis
      unfolding sub by (simp add: layouts_loop_step)
  next
    case (Some t)
    show ?thesis
    proof (cases "below t s0")
      case True
      have "Some t = None \<or> fst x \<in> fst ` set ls \<union> insert (fst x) N" by simp
      from Cons.IH [OF this] Some True show ?thesis
        unfolding sub by (simp add: layouts_loop_step)
    next
      case False
      have "s0 = None \<or> m0 \<in> fst ` set ls \<union> insert (fst x) N"
        using Cons.prems by auto
      from Cons.IH [OF this] Some False show ?thesis
        unfolding sub by (simp add: layouts_loop_step)
    qed
  qed
qed

section \<open>Classifier: the table\<close>

lemma layout_3: "layout_of ''3-Max'' = [(50/100, 68/100), (20/100, 35/100), (80/100, 35/100)]"
  by (simp add: layout_of_def GG_LAYOUTS_def)

lemma layout_4:
  "layout_of ''4-Max'' = [(50/100, 68/100), (15/100, 45/100), (50/100, 25/100), (85/100, 45/100)]"
  by (simp add: layout_of_def GG_LAYOUTS_def)

lemma layout_5:
  "layout_of ''5-Max'' =
    [(50/100, 68/100), (18/100, 55/100), (18/100, 28/100), (82/100, 28/100), (82/100, 55/100)]"
  by (simp add: layout_of_def GG_LAYOUTS_def)

lemma layout_6:
  "layout_of ''6-Max'' =
    [(50/100, 68/100), (28/100, 65/100), (12/100, 45/100), (35/100, 25/100),
     (65/100, 25/100), (88/100, 45/100), (72/100, 65/100)]"
  by (simp add: layout_of_def GG_LAYOUTS_def)

lemma layout_8:
  "layout_of ''8-Max'' =
    [(50/100, 68/100), (30/100, 66/100), (15/100, 50/100), (15/100, 30/100),
     (40/100, 22/100), (60/100, 22/100), (85/100, 30/100), (85/100, 50/100),
     (70/100, 66/100)]"
  by (simp add: layout_of_def GG_LAYOUTS_def)

lemma layout_9:
  "layout_of ''9-Max'' =
    [(50/100, 68/100), (32/100, 66/100), (16/100, 52/100), (14/100, 32/100),
     (30/100, 22/100), (70/100, 22/100), (86/100, 32/100), (84/100, 52/100),
     (68/100, 66/100)]"
  by (simp add: layout_of_def GG_LAYOUTS_def)

lemma layouts_table:
  "GG_LAYOUTS =
    [(''3-Max'', layout_of ''3-Max''), (''4-Max'', layout_of ''4-Max''),
     (''5-Max'', layout_of ''5-Max''), (''6-Max'', layout_of ''6-Max''),
     (''8-Max'', layout_of ''8-Max''), (''9-Max'', layout_of ''9-Max'')]"
  by (simp add: layout_3 layout_4 layout_5 layout_6 layout_8 layout_9) (simp add: GG_LAYOUTS_def)

lemma layouts_nonempty:
  "layout_of ''3-Max'' \<noteq> []" "layout_of ''4-Max'' \<noteq> []" "layout_of ''5-Max'' \<noteq> []"
  "layout_of ''6-Max'' \<noteq> []" "layout_of ''8-Max'' \<noteq> []" "layout_of ''9-Max'' \<noteq> []"
  by (simp_all add: layout_3 layout_4 layout_5 layout_6 layout_8 layout_9)

lemma layouts_length:
  "length (layout_of ''3-Max'') = 3" "length (layout_of ''4-Max'') = 4"
  "length (layout_of ''5-Max'') = 5" "length (layout_of ''6-Max'') = 7"
  "length (layout_of ''8-Max'') = 9" "length (layout_of ''9-Max'') = 9"
  by (simp_all add: layout_3 layout_4 layout_5 layout_6 layout_8 layout_9)

lemma hero_in_layouts:
  "hero_present (layout_of ''3-Max'')" "hero_present (layout_of ''4-Max'')"
  "hero_present (layout_of ''5-Max'')" "hero_present (layout_of ''6-Max'')"
  "hero_present (layout_of ''8-Max'')" "hero_present (layout_of ''9-Max'')"
  by (simp_all add: hero_present_def layout_3 layout_4 layout_5 layout_6 layout_8 layout_9)

section \<open>Classifier: the layouts against each other\<close>

lemma beaten_by_mono: "s \<le> c \<Longrightarrow> beaten_by c pts layout \<Longrightarrow> beaten_by s pts layout"
  by (auto simp add: beaten_by_def split: option.splits)

lemma not_better_mono: "s \<le> c \<Longrightarrow> not_better c pts layout \<Longrightarrow> not_better s pts layout"
  by (auto simp add: not_better_def split: option.splits)

lemma beaten_not_better: "beaten_by s pts layout \<Longrightarrow> not_better s pts layout"
  by (auto simp add: beaten_by_def not_better_def split: option.splits)

subsection \<open>Points of one layout that another layout leaves unmatched\<close>

lemma matched_Cons:
  "matched (q # qs) p \<longleftrightarrow> min_list (map (sq_dist p) (q # qs)) < 225 / 10000"
  by (rule matched_iff) simp

lemma unmatched_4_3: "\<not> matched (layout_of ''3-Max'') (50/100, 25/100)"
  by (simp add: matched_Cons layout_3 sq_dist_def)

lemma unmatched_5_3: "\<not> matched (layout_of ''3-Max'') (18/100, 55/100)"
  by (simp add: matched_Cons layout_3 sq_dist_def)

lemma unmatched_5_4: "\<not> matched (layout_of ''4-Max'') (18/100, 28/100)"
  by (simp add: matched_Cons layout_4 sq_dist_def)

lemma unmatched_6_3: "\<not> matched (layout_of ''3-Max'') (28/100, 65/100)"
  by (simp add: matched_Cons layout_3 sq_dist_def)

lemma unmatched_6_4: "\<not> matched (layout_of ''4-Max'') (28/100, 65/100)"
  by (simp add: matched_Cons layout_4 sq_dist_def)

lemma unmatched_6_5: "\<not> matched (layout_of ''5-Max'') (35/100, 25/100)"
  by (simp add: matched_Cons layout_5 sq_dist_def)

lemma unmatched_8_3: "\<not> matched (layout_of ''3-Max'') (30/100, 66/100)"
  by (simp add: matched_Cons layout_3 sq_dist_def)

lemma unmatched_8_4: "\<not> matched (layout_of ''4-Max'') (30/100, 66/100)"
  by (simp add: matched_Cons layout_4 sq_dist_def)

lemma unmatched_8_5: "\<not> matched (layout_of ''5-Max'') (30/100, 66/100)"
  by (simp add: matched_Cons layout_5 sq_dist_def)

lemma unmatched_8_6: "\<not> matched (layout_of ''6-Max'') (15/100, 30/100)"
  by (simp add: matched_Cons layout_6 sq_dist_def)

lemma unmatched_9_3: "\<not> matched (layout_of ''3-Max'') (32/100, 66/100)"
  by (simp add: matched_Cons layout_3 sq_dist_def)

lemma unmatched_9_4: "\<not> matched (layout_of ''4-Max'') (32/100, 66/100)"
  by (simp add: matched_Cons layout_4 sq_dist_def)

lemma unmatched_9_5: "\<not> matched (layout_of ''5-Max'') (32/100, 66/100)"
  by (simp add: matched_Cons layout_5 sq_dist_def)

text \<open>Every point of the 9-Max layout is within the tolerance of a seat of 6-Max.\<close>

lemma matched_near:
  assumes "q \<in> set layout" and "sq_dist p q < 225 / 10000"
  shows "matched layout p"
proof -
  from assms(1) have ne: "layout \<noteq> []" by auto
  have "Min (set (map (sq_dist p) layout)) \<le> sq_dist p q"
    using assms(1) by (intro Min_le) auto
  with assms(2) have "min_list (map (sq_dist p) layout) < 225 / 10000"
    using ne by (simp add: min_list_Min)
  with ne show ?thesis by (simp add: matched_iff)
qed

lemma matched_9_6: "\<forall>p \<in> set (layout_of ''9-Max''). matched (layout_of ''6-Max'') p"
proof -
  let ?L = "layout_of ''6-Max''"
  have 1: "matched ?L (50/100, 68/100)"
    by (rule matched_near [where q = "(50/100, 68/100)"]) (simp_all add: layout_6 sq_dist_def)
  have 2: "matched ?L (32/100, 66/100)"
    by (rule matched_near [where q = "(28/100, 65/100)"]) (simp_all add: layout_6 sq_dist_def)
  have 3: "matched ?L (16/100, 52/100)"
    by (rule matched_near [where q = "(12/100, 45/100)"]) (simp_all add: layout_6 sq_dist_def)
  have 4: "matched ?L (14/100, 32/100)"
    by (rule matched_near [where q = "(12/100, 45/100)"]) (simp_all add: layout_6 sq_dist_def)
  have 5: "matched ?L (30/100, 22/100)"
    by (rule matched_near [where q = "(35/100, 25/100)"]) (simp_all add: layout_6 sq_dist_def)
  have 6: "matched ?L (70/100, 22/100)"
    by (rule matched_near [where q = "(65/100, 25/100)"]) (simp_all add: layout_6 sq_dist_def)
  have 7: "matched ?L (86/100, 32/100)"
    by (rule matched_near [where q = "(88/100, 45/100)"]) (simp_all add: layout_6 sq_dist_def)
  have 8: "matched ?L (84/100, 52/100)"
    by (rule matched_near [where q = "(88/100, 45/100)"]) (simp_all add: layout_6 sq_dist_def)
  have 9: "matched ?L (68/100, 66/100)"
    by (rule matched_near [where q = "(72/100, 65/100)"]) (simp_all add: layout_6 sq_dist_def)
  from 1 2 3 4 5 6 7 8 9 show ?thesis
    unfolding layout_9 by simp
qed

subsection \<open>A layout's own coordinates as input\<close>

lemma puntos_test_own:
  "puntos_test_of (layout_of ''3-Max'') = layout_of ''3-Max''"
  "puntos_test_of (layout_of ''4-Max'') = layout_of ''4-Max''"
  "puntos_test_of (layout_of ''5-Max'') = layout_of ''5-Max''"
  "puntos_test_of (layout_of ''6-Max'') = layout_of ''6-Max''"
  "puntos_test_of (layout_of ''8-Max'') = layout_of ''8-Max''"
  "puntos_test_of (layout_of ''9-Max'') = layout_of ''9-Max''"
  by (simp_all add: puntos_test_of_def hero_in_layouts)

lemma own_score: "layout \<noteq> [] \<Longrightarrow> layout_score layout layout = Some 0"
  using layout_score_own [of layout layout] by simp

lemma rival_unmatched:
  "rival \<noteq> [] \<Longrightarrow> p \<in> set pts \<Longrightarrow> \<not> matched rival p \<Longrightarrow> length pts \<le> 10 \<Longrightarrow> s \<le> 3 \<Longrightarrow>
    beaten_by s pts rival"
  using layout_score_unmatched [of rival p pts] beaten_by_mono [of s 3 pts rival] by blast

lemma rival_larger:
  "rival \<noteq> [] \<Longrightarrow> length pts \<le> length rival \<Longrightarrow> s \<le> 0 \<Longrightarrow> not_better s pts rival"
  using layout_score_nonneg [of rival pts] not_better_mono [of s 0 pts rival] by blast

lemma best_fit_3: "best_fit (layout_of ''3-Max'') = (''3-Max'', Some 0)"
proof -
  let ?L = "layout_of ''3-Max''"
  have "layouts_loop ([] @ (''3-Max'', ?L) #
      [(''4-Max'', layout_of ''4-Max''), (''5-Max'', layout_of ''5-Max''),
       (''6-Max'', layout_of ''6-Max''), (''8-Max'', layout_of ''8-Max''),
       (''9-Max'', layout_of ''9-Max'')]) ?L (''Custom'', None) = (''3-Max'', Some 0)"
  proof (rule layouts_loop_winner)
    show "\<forall>x \<in> set []. beaten_by 0 ?L (snd x)" by simp
    show "layout_score ?L ?L = Some 0" by (rule own_score) (rule layouts_nonempty)
    show "\<forall>x \<in> set [(''4-Max'', layout_of ''4-Max''), (''5-Max'', layout_of ''5-Max''),
       (''6-Max'', layout_of ''6-Max''), (''8-Max'', layout_of ''8-Max''),
       (''9-Max'', layout_of ''9-Max'')]. not_better 0 ?L (snd x)"
      by (simp add: rival_larger layouts_nonempty layouts_length)
  qed
  then show ?thesis
    by (simp add: best_fit_def puntos_test_own) (simp add: layouts_table)
qed

lemma best_fit_4: "best_fit (layout_of ''4-Max'') = (''4-Max'', Some 0)"
proof -
  let ?L = "layout_of ''4-Max''"
  have "layouts_loop ([(''3-Max'', layout_of ''3-Max'')] @ (''4-Max'', ?L) #
      [(''5-Max'', layout_of ''5-Max''),
       (''6-Max'', layout_of ''6-Max''), (''8-Max'', layout_of ''8-Max''),
       (''9-Max'', layout_of ''9-Max'')]) ?L (''Custom'', None) = (''4-Max'', Some 0)"
  proof (rule layouts_loop_winner)
    have "beaten_by 0 ?L (layout_of ''3-Max'')"
      by (rule rival_unmatched [OF layouts_nonempty(1) _ unmatched_4_3])
         (simp_all add: layout_4)
    then show "\<forall>x \<in> set [(''3-Max'', layout_of ''3-Max'')]. beaten_by 0 ?L (snd x)" by simp
    show "layout_score ?L ?L = Some 0" by (rule own_score) (rule layouts_nonempty)
    show "\<forall>x \<in> set [(''5-Max'', layout_of ''5-Max''),
       (''6-Max'', layout_of ''6-Max''), (''8-Max'', layout_of ''8-Max''),
       (''9-Max'', layout_of ''9-Max'')]. not_better 0 ?L (snd x)"
      by (simp add: rival_larger layouts_nonempty layouts_length)
  qed
  then show ?thesis
    by (simp add: best_fit_def puntos_test_own) (simp add: layouts_table)
qed

lemma best_fit_5: "best_fit (layout_of ''5-Max'') = (''5-Max'', Some 0)"
proof -
  let ?L = "layout_of ''5-Max''"
  have "layouts_loop ([(''3-Max'', layout_of ''3-Max''), (''4-Max'', layout_of ''4-Max'')] @
      (''5-Max'', ?L) #
      [(''6-Max'', layout_of ''6-Max''), (''8-Max'', layout_of ''8-Max''),
       (''9-Max'', layout_of ''9-Max'')]) ?L (''Custom'', None) = (''5-Max'', Some 0)"
  proof (rule layouts_loop_winner)
    have "beaten_by 0 ?L (layout_of ''3-Max'')"
      by (rule rival_unmatched [OF layouts_nonempty(1) _ unmatched_5_3])
         (simp_all add: layout_5)
    moreover have "beaten_by 0 ?L (layout_of ''4-Max'')"
      by (rule rival_unmatched [OF layouts_nonempty(2) _ unmatched_5_4])
         (simp_all add: layout_5)
    ultimately show "\<forall>x \<in> set [(''3-Max'', layout_of ''3-Max''), (''4-Max'', layout_of ''4-Max'')].
        beaten_by 0 ?L (snd x)" by simp
    show "layout_score ?L ?L = Some 0" by (rule own_score) (rule layouts_nonempty)
    show "\<forall>x \<in> set [(''6-Max'', layout_of ''6-Max''), (''8-Max'', layout_of ''8-Max''),
       (''9-Max'', layout_of ''9-Max'')]. not_better 0 ?L (snd x)"
      by (simp add: rival_larger layouts_nonempty layouts_length)
  qed
  then show ?thesis
    by (simp add: best_fit_def puntos_test_own) (simp add: layouts_table)
qed

lemma best_fit_6: "best_fit (layout_of ''6-Max'') = (''6-Max'', Some 0)"
proof -
  let ?L = "layout_of ''6-Max''"
  have "layouts_loop ([(''3-Max'', layout_of ''3-Max''), (''4-Max'', layout_of ''4-Max''),
       (''5-Max'', layout_of ''5-Max'')] @
      (''6-Max'', ?L) #
      [(''8-Max'', layout_of ''8-Max''),
       (''9-Max'', layout_of ''9-Max'')]) ?L (''Custom'', None) = (''6-Max'', Some 0)"
  proof (rule layouts_loop_winner)
    have "beaten_by 0 ?L (layout_of ''3-Max'')"
      by (rule rival_unmatched [OF layouts_nonempty(1) _ unmatched_6_3])
         (simp_all add: layout_6)
    moreover have "beaten_by 0 ?L (layout_of ''4-Max'')"
      by (rule rival_unmatched [OF layouts_nonempty(2) _ unmatched_6_4])
         (simp_all add: layout_6)
    moreover have "beaten_by 0 ?L (layout_of ''5-Max'')"
      by (rule rival_unmatched [OF layouts_nonempty(3) _ unmatched_6_5])
         (simp_all add: layout_6)
    ultimately show "\<forall>x \<in> set [(''3-Max'', layout_of ''3-Max''), (''4-Max'', layout_of ''4-Max''),
       (''5-Max'', layout_of ''5-Max'')]. beaten_by 0 ?L (snd x)" by simp
    show "layout_score ?L ?L = Some 0" by (rule own_score) (rule layouts_nonempty)
    show "\<forall>x \<in> set [(''8-Max'', layout_of ''8-Max''),
       (''9-Max'', layout_of ''9-Max'')]. not_better 0 ?L (snd x)"
      by (simp add: rival_larger layouts_nonempty layouts_length)
  qed
  then show ?thesis
    by (simp add: best_fit_def puntos_test_own) (simp add: layouts_table)
qed

lemma best_fit_8: "best_fit (layout_of ''8-Max'') = (''8-Max'', Some 0)"
proof -
  let ?L = "layout_of ''8-Max''"
  have "layouts_loop ([(''3-Max'', layout_of ''3-Max''), (''4-Max'', layout_of ''4-Max''),
       (''5-Max'', layout_of ''5-Max''), (''6-Max'', layout_of ''6-Max'')] @
      (''8-Max'', ?L) #
      [(''9-Max'', layout_of ''9-Max'')]) ?L (''Custom'', None) = (''8-Max'', Some 0)"
  proof (rule layouts_loop_winner)
    have "beaten_by 0 ?L (layout_of ''3-Max'')"
      by (rule rival_unmatched [OF layouts_nonempty(1) _ unmatched_8_3])
         (simp_all add: layout_8)
    moreover have "beaten_by 0 ?L (layout_of ''4-Max'')"
      by (rule rival_unmatched [OF layouts_nonempty(2) _ unmatched_8_4])
         (simp_all add: layout_8)
    moreover have "beaten_by 0 ?L (layout_of ''5-Max'')"
      by (rule rival_unmatched [OF layouts_nonempty(3) _ unmatched_8_5])
         (simp_all add: layout_8)
    moreover have "beaten_by 0 ?L (layout_of ''6-Max'')"
      by (rule rival_unmatched [OF layouts_nonempty(4) _ unmatched_8_6])
         (simp_all add: layout_8)
    ultimately show "\<forall>x \<in> set [(''3-Max'', layout_of ''3-Max''), (''4-Max'', layout_of ''4-Max''),
       (''5-Max'', layout_of ''5-Max''), (''6-Max'', layout_of ''6-Max'')].
       beaten_by 0 ?L (snd x)" by simp
    show "layout_score ?L ?L = Some 0" by (rule own_score) (rule layouts_nonempty)
    show "\<forall>x \<in> set [(''9-Max'', layout_of ''9-Max'')]. not_better 0 ?L (snd x)"
      by (simp add: rival_larger layouts_nonempty layouts_length)
  qed
  then show ?thesis
    by (simp add: best_fit_def puntos_test_own) (simp add: layouts_table)
qed

text \<open>
  On the nine points of 9-Max the seven-seat layout 6-Max matches all nine, so its
  empty-seat term is \<open>(7 - 9) * 0.1\<close> and its score is negative.
\<close>

lemma best_fit_9:
  "\<exists>s. s < - (5 / 100) \<and> best_fit (layout_of ''9-Max'') = (''6-Max'', Some s)"
proof -
  let ?L = "layout_of ''9-Max''"
  obtain s where sc: "layout_score (layout_of ''6-Max'') ?L = Some s"
    and neg: "s < 15 / 100 +
      real_of_int (int (length (layout_of ''6-Max'')) - int (length ?L)) * (1 / 10)"
    using layout_score_all_matched [OF layouts_nonempty(4) layouts_nonempty(6) matched_9_6]
    by blast
  from neg have s: "s < - (5 / 100)"
    by (simp add: layouts_length)
  have "layouts_loop ([(''3-Max'', layout_of ''3-Max''), (''4-Max'', layout_of ''4-Max''),
       (''5-Max'', layout_of ''5-Max'')] @
      (''6-Max'', layout_of ''6-Max'') #
      [(''8-Max'', layout_of ''8-Max''),
       (''9-Max'', layout_of ''9-Max'')]) ?L (''Custom'', None) = (''6-Max'', Some s)"
  proof (rule layouts_loop_winner)
    have "beaten_by s ?L (layout_of ''3-Max'')"
      using s by (intro rival_unmatched [OF layouts_nonempty(1) _ unmatched_9_3])
         (simp_all add: layout_9)
    moreover have "beaten_by s ?L (layout_of ''4-Max'')"
      using s by (intro rival_unmatched [OF layouts_nonempty(2) _ unmatched_9_4])
         (simp_all add: layout_9)
    moreover have "beaten_by s ?L (layout_of ''5-Max'')"
      using s by (intro rival_unmatched [OF layouts_nonempty(3) _ unmatched_9_5])
         (simp_all add: layout_9)
    ultimately show "\<forall>x \<in> set [(''3-Max'', layout_of ''3-Max''), (''4-Max'', layout_of ''4-Max''),
       (''5-Max'', layout_of ''5-Max'')]. beaten_by s ?L (snd x)" by simp
    show "layout_score (layout_of ''6-Max'') ?L = Some s" by (rule sc)
    show "\<forall>x \<in> set [(''8-Max'', layout_of ''8-Max''),
       (''9-Max'', layout_of ''9-Max'')]. not_better s ?L (snd x)"
      using s by (simp add: rival_larger layouts_nonempty layouts_length)
  qed
  then have "best_fit ?L = (''6-Max'', Some s)"
    by (simp add: best_fit_def puntos_test_own) (simp add: layouts_table)
  with s show ?thesis by blast
qed

section \<open>Classifier: the result\<close>

lemma inferir_of_best_fit:
  "pts \<noteq> [] \<Longrightarrow> best_fit pts = (m, Some s) \<Longrightarrow> s \<le> 3 \<Longrightarrow> inferir_formato_geometrico pts = m"
  by (simp add: inferir_formato_geometrico_def)

lemma sentinel_not_a_layout: "DETECTANDO \<notin> fst ` set GG_LAYOUTS"
  by (simp add: GG_LAYOUTS_def DETECTANDO_def)

lemma best_fit_name:
  "snd (best_fit pts) = None \<or> fst (best_fit pts) \<in> fst ` set GG_LAYOUTS"
  using layouts_loop_name [of None "''Custom''" GG_LAYOUTS "{}" "puntos_test_of pts"]
  by (simp add: best_fit_def)

lemma best_fit_above:
  "below c (snd (best_fit pts)) \<longleftrightarrow>
    (\<forall>x \<in> set GG_LAYOUTS. beaten_by c (puntos_test_of pts) (snd x))"
  unfolding best_fit_def layouts_loop_above by (simp add: below_def)

lemma inferir_sentinel_iff:
  "inferir_formato_geometrico pts = DETECTANDO \<longleftrightarrow>
    pts = [] \<or> (\<forall>x \<in> set GG_LAYOUTS. beaten_by 3 (puntos_test_of pts) (snd x))"
proof (cases "pts = []")
  case True
  then show ?thesis by (simp add: inferir_formato_geometrico_def)
next
  case False
  obtain m s where bf: "best_fit pts = (m, s)" by (cases "best_fit pts")
  show ?thesis
  proof (cases "below 3 s")
    case True
    then have "inferir_formato_geometrico pts = DETECTANDO"
      using False bf
      by (auto simp add: inferir_formato_geometrico_def below_def split: option.splits)
    moreover have "\<forall>x \<in> set GG_LAYOUTS. beaten_by 3 (puntos_test_of pts) (snd x)"
      using True bf best_fit_above [of 3 pts] by simp
    ultimately show ?thesis by simp
  next
    case nb: False
    then obtain v where v: "s = Some v" "v \<le> 3"
      by (auto simp add: below_def split: option.splits)
    have "m \<in> fst ` set GG_LAYOUTS"
      using best_fit_name [of pts] bf v by simp
    then have "m \<noteq> DETECTANDO"
      using sentinel_not_a_layout by metis
    moreover have "inferir_formato_geometrico pts = m"
      using False bf v by (simp add: inferir_of_best_fit)
    moreover have "\<not> (\<forall>x \<in> set GG_LAYOUTS. beaten_by 3 (puntos_test_of pts) (snd x))"
      using nb bf best_fit_above [of 3 pts] by simp
    ultimately show ?thesis using False by simp
  qed
qed

lemma inferir_names:
  "inferir_formato_geometrico pts \<noteq> DETECTANDO \<Longrightarrow>
    inferir_formato_geometrico pts \<in> fst ` set GG_LAYOUTS"
proof -
  assume nd: "inferir_formato_geometrico pts \<noteq> DETECTANDO"
  then have ne: "pts \<noteq> []" by (auto simp add: inferir_formato_geometrico_def)
  obtain m s where bf: "best_fit pts = (m, s)" by (cases "best_fit pts")
  from nd ne bf obtain v where v: "s = Some v" "v \<le> 3"
    by (auto simp add: inferir_formato_geometrico_def split: option.splits if_splits)
  have "m \<in> fst ` set GG_LAYOUTS"
    using best_fit_name [of pts] bf v by simp
  moreover have "inferir_formato_geometrico pts = m"
    using ne bf v by (simp add: inferir_of_best_fit)
  ultimately show ?thesis by simp
qed

text \<open>The hero point, present or injected, matches every layout that holds the hero seat.\<close>

lemma square_small:
  fixes a :: real
  shows "\<bar>a\<bar> < 1 / 10 \<Longrightarrow> a * a < 1 / 100"
proof -
  assume "\<bar>a\<bar> < 1 / 10"
  then have "\<bar>a\<bar> * \<bar>a\<bar> < (1 / 10) * (1 / 10)"
    by (intro mult_strict_mono') simp_all
  then show ?thesis by (simp add: abs_mult_self_eq)
qed

lemma hero_point_exists:
  "pts \<noteq> [] \<Longrightarrow>
    \<exists>p \<in> set (puntos_test_of pts). \<bar>fst p - 5 / 10\<bar> < 1 / 10 \<and> \<bar>snd p - 68 / 100\<bar> < 1 / 10"
proof (cases "hero_present pts")
  case True
  then obtain p where "p \<in> set pts"
    and "\<bar>fst p - 5 / 10\<bar> < 1 / 10 \<and> \<bar>snd p - 68 / 100\<bar> < 1 / 10"
    by (auto simp add: hero_present_def list_ex_iff)
  with True show ?thesis
    by (auto simp add: puntos_test_of_def)
next
  case False
  then show ?thesis
    by (simp add: puntos_test_of_def)
qed

lemma hero_always_matched:
  assumes "pts \<noteq> []" and "(50 / 100, 68 / 100) \<in> set layout"
  shows "0 < snd (match_points layout (puntos_test_of pts) (0, 0))"
proof -
  from hero_point_exists [OF assms(1)] obtain p where
    p: "p \<in> set (puntos_test_of pts)"
    and x: "\<bar>fst p - 5 / 10\<bar> < 1 / 10" and y: "\<bar>snd p - 68 / 100\<bar> < 1 / 10"
    by blast
  have "sq_dist p (50 / 100, 68 / 100) < 1 / 100 + 1 / 100"
    unfolding sq_dist_def using square_small [OF x] square_small [OF y]
    by (intro add_strict_mono) simp_all
  then have "sq_dist p (50 / 100, 68 / 100) < 225 / 10000" by simp
  with assms(2) have "matched layout p" by (rule matched_near)
  with p have "p \<in> set (filter (matched layout) (puntos_test_of pts))" by simp
  then have "0 < matches_of layout (puntos_test_of pts)"
    unfolding matches_of_def by (rule length_pos_if_in_set)
  then show ?thesis by (simp add: match_points_eq)
qed

lemma hero_in_table: "\<forall>x \<in> set GG_LAYOUTS. (50 / 100, 68 / 100) \<in> set (snd x)"
  by (simp add: GG_LAYOUTS_def)

subsection \<open>A point far from every seat\<close>

lemma far_test: "puntos_test_of far_points = [(50 / 100, 0), (50 / 100, 68 / 100)]"
  by (simp add: far_points_def puntos_test_of_def hero_present_def)

lemma far_unmatched:
  "\<not> matched (layout_of ''3-Max'') (50 / 100, 0)" "\<not> matched (layout_of ''4-Max'') (50 / 100, 0)"
  "\<not> matched (layout_of ''5-Max'') (50 / 100, 0)" "\<not> matched (layout_of ''6-Max'') (50 / 100, 0)"
  "\<not> matched (layout_of ''8-Max'') (50 / 100, 0)" "\<not> matched (layout_of ''9-Max'') (50 / 100, 0)"
  by (simp_all add: matched_Cons layout_3 layout_4 layout_5 layout_6 layout_8 layout_9 sq_dist_def)

lemma far_rejected: "\<forall>x \<in> set GG_LAYOUTS. beaten_by 3 (puntos_test_of far_points) (snd x)"
proof -
  have "beaten_by 3 (puntos_test_of far_points) layout"
    if "layout \<noteq> []" and "\<not> matched layout (50 / 100, 0)" for layout
    using that by (intro rival_unmatched [where p = "(50 / 100, 0)"]) (simp_all add: far_test)
  then show ?thesis
    unfolding layouts_table using far_unmatched layouts_nonempty by simp
qed

lemma far_sentinel: "inferir_formato_geometrico far_points = DETECTANDO"
  using far_rejected by (simp add: inferir_sentinel_iff)

lemma far_one_match:
  "snd (match_points (layout_of ''3-Max'') (puntos_test_of far_points) (0, 0)) = 1"
proof -
  have "matched (layout_of ''3-Max'') (50 / 100, 68 / 100)"
    by (rule matched_near [where q = "(50 / 100, 68 / 100)"]) (simp_all add: layout_3 sq_dist_def)
  with far_unmatched(1) show ?thesis
    by (simp add: match_points_eq matches_of_def far_test)
qed

section \<open>Classifier: ties\<close>

text \<open>
  Two layouts with the same score, every other layout scoring above it: the loop ends
  with the one that comes first in the table.
\<close>

lemma layouts_loop_tie:
  assumes ij: "i < j" "j < length ls"
    and si: "layout_score (snd (ls ! i)) pts = Some s"
    and sj: "layout_score (snd (ls ! j)) pts = Some s"
    and others: "\<forall>k < length ls. k \<noteq> i \<and> k \<noteq> j \<longrightarrow> beaten_by s pts (snd (ls ! k))"
  shows "layouts_loop ls pts (m0, None) = (fst (ls ! i), Some s)"
proof -
  from ij have i: "i < length ls" by simp
  have split: "ls = take i ls @ (fst (ls ! i), snd (ls ! i)) # drop (Suc i) ls"
    using id_take_nth_drop [OF i] by simp
  have pre: "\<forall>x \<in> set (take i ls). beaten_by s pts (snd x)"
  proof
    fix x assume "x \<in> set (take i ls)"
    then obtain k where k: "k < length (take i ls)" "x = take i ls ! k"
      by (auto simp add: in_set_conv_nth)
    then have "k < i" "x = ls ! k" by simp_all
    with others ij show "beaten_by s pts (snd x)" by simp
  qed
  have post: "\<forall>x \<in> set (drop (Suc i) ls). not_better s pts (snd x)"
  proof
    fix x assume "x \<in> set (drop (Suc i) ls)"
    then obtain k where k: "k < length (drop (Suc i) ls)" "x = drop (Suc i) ls ! k"
      by (auto simp add: in_set_conv_nth)
    then have x: "x = ls ! (Suc i + k)" and r: "Suc i + k < length ls" by simp_all
    show "not_better s pts (snd x)"
    proof (cases "Suc i + k = j")
      case True
      with sj x show ?thesis by (simp add: not_better_def)
    next
      case False
      with others r have "beaten_by s pts (snd (ls ! (Suc i + k)))" by simp
      with x show ?thesis by (simp add: beaten_not_better)
    qed
  qed
  have "layouts_loop (take i ls @ (fst (ls ! i), snd (ls ! i)) # drop (Suc i) ls) pts (m0, None) =
      (fst (ls ! i), Some s)"
    using pre si post by (rule layouts_loop_winner)
  with split show ?thesis by simp
qed

lemma table_sizes: "map (\<lambda>x. length (snd x)) GG_LAYOUTS = [3, 4, 5, 7, 9, 9]"
  by (simp add: GG_LAYOUTS_def)

lemma sizes_ascending:
  fixes i j :: nat
  assumes "i < j" and "j < 6"
  shows "[3, 4, 5, 7, 9, 9 :: nat] ! i \<le> [3, 4, 5, 7, 9, 9] ! j \<and>
    ([3, 4, 5, 7, 9, 9 :: nat] ! i = [3, 4, 5, 7, 9, 9] ! j \<longrightarrow> i = 4 \<and> j = 5)"
proof -
  from assms(2) consider "j = 0" | "j = 1" | "j = 2" | "j = 3" | "j = 4" | "j = 5"
    by linarith
  then show ?thesis
  proof cases
    case 1 with assms(1) show ?thesis by simp
  next
    case 2 with assms(1) have "i = 0" by simp
    with 2 show ?thesis by simp
  next
    case 3 with assms(1) consider "i = 0" | "i = 1" by linarith
    then show ?thesis using 3 by cases simp_all
  next
    case 4 with assms(1) consider "i = 0" | "i = 1" | "i = 2" by linarith
    then show ?thesis using 4 by cases simp_all
  next
    case 5 with assms(1) consider "i = 0" | "i = 1" | "i = 2" | "i = 3" by linarith
    then show ?thesis using 5 by cases simp_all
  next
    case 6 with assms(1) consider "i = 0" | "i = 1" | "i = 2" | "i = 3" | "i = 4" by linarith
    then show ?thesis using 6 by cases simp_all
  qed
qed

lemma table_order:
  assumes "i < j" and "j < length GG_LAYOUTS"
  shows "length (snd (GG_LAYOUTS ! i)) \<le> length (snd (GG_LAYOUTS ! j)) \<and>
    (length (snd (GG_LAYOUTS ! i)) = length (snd (GG_LAYOUTS ! j)) \<longrightarrow>
       fst (GG_LAYOUTS ! i) = ''8-Max'' \<and> fst (GG_LAYOUTS ! j) = ''9-Max'')"
proof -
  have len: "length GG_LAYOUTS = 6" by (simp add: GG_LAYOUTS_def)
  with assms have j: "j < 6" and i: "i < 6" by simp_all
  have si: "length (snd (GG_LAYOUTS ! i)) = [3, 4, 5, 7, 9, 9] ! i"
    using nth_map [of i GG_LAYOUTS "\<lambda>x. length (snd x)"] i len table_sizes by simp
  have sj: "length (snd (GG_LAYOUTS ! j)) = [3, 4, 5, 7, 9, 9] ! j"
    using nth_map [of j GG_LAYOUTS "\<lambda>x. length (snd x)"] j len table_sizes by simp
  have n4: "fst (GG_LAYOUTS ! 4) = ''8-Max''" and n5: "fst (GG_LAYOUTS ! 5) = ''9-Max''"
    by (simp_all add: GG_LAYOUTS_def)
  from sizes_ascending [OF assms(1) j] si sj n4 n5 show ?thesis by auto
qed

subsection \<open>A point that 8-Max and 9-Max explain equally well\<close>

lemma tie_test: "puntos_test_of tie_points = [(35 / 100, 9 / 100), (50 / 100, 68 / 100)]"
  by (simp add: tie_points_def puntos_test_of_def hero_present_def)

lemma tie_min_8: "min_d_of (layout_of ''8-Max'') (35 / 100, 9 / 100) = sqrt (194 / 10000)"
  by (simp add: min_d_of_sqrt layouts_nonempty) (simp add: layout_8 sq_dist_def)

lemma tie_min_9: "min_d_of (layout_of ''9-Max'') (35 / 100, 9 / 100) = sqrt (194 / 10000)"
  by (simp add: min_d_of_sqrt layouts_nonempty) (simp add: layout_9 sq_dist_def)

lemma tie_near: "sqrt (194 / 10000) < 15 / 100"
  using sqrt_less_const [of "15 / 100" "194 / 10000"] by simp

lemma tie_score_le: "tie_score \<le> 3"
  using tie_near by (simp add: tie_score_def)

lemma two_point_score:
  assumes "min_d_of layout p = d" and "d < 15 / 100" and "h \<in> set layout"
  shows "layout_score layout [p, h] =
    Some (d / 2 + real_of_int (int (length layout) - 2) * (1 / 10))"
proof -
  have mp: "matched layout p" using assms(1,2) by (simp add: matched_def)
  have mh: "matched layout h" "min_d_of layout h = 0"
    using assms(3) by (simp_all add: matched_def min_d_own)
  show ?thesis
    using mp mh assms(1) by (simp add: layout_score_eq matches_of_def)
qed

lemma tie_score_8: "layout_score (layout_of ''8-Max'') (puntos_test_of tie_points) = Some tie_score"
  unfolding tie_test
  using two_point_score [OF tie_min_8 tie_near, of "(50 / 100, 68 / 100)"]
  by (simp add: layouts_length tie_score_def) (simp add: layout_8)

lemma tie_score_9: "layout_score (layout_of ''9-Max'') (puntos_test_of tie_points) = Some tie_score"
  unfolding tie_test
  using two_point_score [OF tie_min_9 tie_near, of "(50 / 100, 68 / 100)"]
  by (simp add: layouts_length tie_score_def) (simp add: layout_9)

lemma tie_unmatched:
  "\<not> matched (layout_of ''3-Max'') (35 / 100, 9 / 100)"
  "\<not> matched (layout_of ''4-Max'') (35 / 100, 9 / 100)"
  "\<not> matched (layout_of ''5-Max'') (35 / 100, 9 / 100)"
  "\<not> matched (layout_of ''6-Max'') (35 / 100, 9 / 100)"
  by (simp_all add: matched_Cons layout_3 layout_4 layout_5 layout_6 sq_dist_def)

lemma tie_others:
  "beaten_by tie_score (puntos_test_of tie_points) (layout_of ''3-Max'')"
  "beaten_by tie_score (puntos_test_of tie_points) (layout_of ''4-Max'')"
  "beaten_by tie_score (puntos_test_of tie_points) (layout_of ''5-Max'')"
  "beaten_by tie_score (puntos_test_of tie_points) (layout_of ''6-Max'')"
proof -
  have "beaten_by tie_score (puntos_test_of tie_points) layout"
    if "layout \<noteq> []" and "\<not> matched layout (35 / 100, 9 / 100)" for layout
    using that tie_score_le
    by (intro rival_unmatched [where p = "(35 / 100, 9 / 100)"]) (simp_all add: tie_test)
  then show
    "beaten_by tie_score (puntos_test_of tie_points) (layout_of ''3-Max'')"
    "beaten_by tie_score (puntos_test_of tie_points) (layout_of ''4-Max'')"
    "beaten_by tie_score (puntos_test_of tie_points) (layout_of ''5-Max'')"
    "beaten_by tie_score (puntos_test_of tie_points) (layout_of ''6-Max'')"
    using tie_unmatched layouts_nonempty by simp_all
qed

lemma tie_result: "inferir_formato_geometrico tie_points = ''8-Max''"
proof -
  have "layouts_loop ([(''3-Max'', layout_of ''3-Max''), (''4-Max'', layout_of ''4-Max''),
       (''5-Max'', layout_of ''5-Max''), (''6-Max'', layout_of ''6-Max'')] @
      (''8-Max'', layout_of ''8-Max'') #
      [(''9-Max'', layout_of ''9-Max'')]) (puntos_test_of tie_points) (''Custom'', None) =
      (''8-Max'', Some tie_score)"
  proof (rule layouts_loop_winner)
    show "\<forall>x \<in> set [(''3-Max'', layout_of ''3-Max''), (''4-Max'', layout_of ''4-Max''),
       (''5-Max'', layout_of ''5-Max''), (''6-Max'', layout_of ''6-Max'')].
       beaten_by tie_score (puntos_test_of tie_points) (snd x)"
      using tie_others by simp
    show "layout_score (layout_of ''8-Max'') (puntos_test_of tie_points) = Some tie_score"
      by (rule tie_score_8)
    show "\<forall>x \<in> set [(''9-Max'', layout_of ''9-Max'')].
       not_better tie_score (puntos_test_of tie_points) (snd x)"
      using tie_score_9 by (simp add: not_better_def)
  qed
  then have "best_fit tie_points = (''8-Max'', Some tie_score)"
    by (simp add: best_fit_def) (simp add: layouts_table)
  then show ?thesis
    using tie_score_le by (intro inferir_of_best_fit) (simp_all add: tie_points_def)
qed

section \<open>Stabiliser: clustering\<close>

lemma add_to_clusters_none:
  "\<forall>c \<in> set cls. \<not> near c d \<Longrightarrow> add_to_clusters cls d = cls @ [new_cluster d]"
  by (induction cls) simp_all

lemma add_to_clusters_first:
  "i < length cls \<Longrightarrow> near (cls ! i) d \<Longrightarrow> \<forall>j < i. \<not> near (cls ! j) d \<Longrightarrow>
    add_to_clusters cls d = cls[i := join (cls ! i) d]"
proof (induction cls arbitrary: i)
  case Nil
  then show ?case by simp
next
  case (Cons c cls)
  show ?case
  proof (cases i)
    case 0
    with Cons.prems show ?thesis by simp
  next
    case (Suc k)
    with Cons.prems have "\<not> near c d" by auto
    moreover have "add_to_clusters cls d = cls[k := join (cls ! k) d]"
      using Cons.prems Suc by (intro Cons.IH) auto
    ultimately show ?thesis using Suc by simp
  qed
qed

lemma build_clusters_snoc:
  "build_clusters (items @ [d]) = add_to_clusters (build_clusters items) d"
  by (simp add: build_clusters_def)

section \<open>Stabiliser: hero, board and opponent groups\<close>

lemma valid_cards_filter:
  "valid_cards n raw =
    take n (filter (\<lambda>it. item_label it \<noteq> CARD_BACK) (sort_key fst raw))"
  by (simp add: valid_cards_def Let_def)

lemma valid_cards_length: "length (valid_cards n raw) \<le> n"
  by (simp add: valid_cards_filter)

lemma valid_cards_no_back: "CARD_BACK \<notin> set (map item_label (valid_cards n raw))"
proof
  assume "CARD_BACK \<in> set (map item_label (valid_cards n raw))"
  then obtain it where "it \<in> set (valid_cards n raw)" and "item_label it = CARD_BACK"
    by auto
  then have "it \<in> set (filter (\<lambda>it. item_label it \<noteq> CARD_BACK) (sort_key fst raw))"
    unfolding valid_cards_filter by (auto dest: in_set_takeD)
  with \<open>item_label it = CARD_BACK\<close> show False by simp
qed

lemma valid_cards_sorted: "sorted (map fst (valid_cards n raw))"
proof -
  have "sorted (map fst (sort_key fst raw))" by (rule sorted_sort_key)
  then have "sorted (map fst (filter (\<lambda>it. item_label it \<noteq> CARD_BACK) (sort_key fst raw)))"
    by (rule sorted_filter)
  then have "sorted (take n (map fst (filter (\<lambda>it. item_label it \<noteq> CARD_BACK) (sort_key fst raw))))"
    by (rule sorted_wrt_take)
  then show ?thesis by (simp add: valid_cards_filter take_map)
qed

lemma group_cards_one: "group_cards [a] = [item_label a, item_label a]"
  by (simp add: group_cards_def)

lemma group_cards_two: "length (group_cards [a, b]) = 2"
  by (simp add: group_cards_def Let_def)

lemma agrupar_loop_pairs:
  "\<forall>g \<in> set grupos. length g = 2 \<Longrightarrow>
    \<forall>g \<in> set (agrupar_loop items dist_thresh idxs used grupos). length g = 2"
proof (induction idxs arbitrary: used grupos)
  case Nil
  then show ?case by simp
next
  case (Cons i rest)
  show ?case
  proof (cases "used ! i")
    case True
    with Cons show ?thesis by simp
  next
    case False
    show ?thesis
    proof (cases "best_partner items (used[i := True]) i dist_thresh")
      case None
      have "\<forall>g \<in> set (grupos @ [group_cards [items ! i]]). length g = 2"
        using Cons.prems by (simp add: group_cards_one)
      from Cons.IH [OF this] False None show ?thesis by simp
    next
      case (Some b)
      obtain best_idx min_d where b: "b = (best_idx, min_d)" by (cases b)
      have "\<forall>g \<in> set (grupos @ [group_cards [items ! i, items ! best_idx]]). length g = 2"
        using Cons.prems by (simp add: group_cards_two)
      from Cons.IH [OF this] False Some b show ?thesis by simp
    qed
  qed
qed

lemma agrupar_rivales_pairs: "\<forall>g \<in> set (agrupar_rivales items ancho). length g = 2"
proof (cases "items = []")
  case True
  then show ?thesis by (simp add: agrupar_rivales_def)
next
  case False
  have "\<forall>g \<in> set []. length (g :: string list) = 2" by simp
  from agrupar_loop_pairs [OF this] False show ?thesis
    by (simp add: agrupar_rivales_def Let_def)
qed

lemma agrupar_rivales_single:
  "agrupar_rivales [it] ancho = [[item_label it, item_label it]]"
  by (simp add: agrupar_rivales_def best_partner_def group_cards_one)

lemma process_cards:
  assumes "frame st = Some (alto_img, ancho_img)"
  shows "detection_history (fst (process p st t_hero now clk)) =
      deque_append BUFFER_SIZE (detection_history p)
        (List.map_filter (frame_item_of p ancho_img alto_img) (detections st))"
    and "my_cards (gs (snd (process p st t_hero now clk))) =
      Some (map item_label (valid_cards 2
        (fst (consolidar_buffer (detection_history (fst (process p st t_hero now clk)))))))"
    and "board (gs (snd (process p st t_hero now clk))) =
      Some (map item_label (valid_cards 5
        (fst (snd (consolidar_buffer (detection_history (fst (process p st t_hero now clk))))))))"
    and "opponents_cards (gs (snd (process p st t_hero now clk))) =
      Some (agrupar_rivales
        (snd (snd (consolidar_buffer (detection_history (fst (process p st t_hero now clk))))))
        ancho_img)"
  using assms by (simp_all add: process_def Let_def)

lemma valid_cards_subset: "set (valid_cards n raw) \<subseteq> set raw"
  unfolding valid_cards_filter by (auto dest: in_set_takeD)

text \<open>What the cut drops lies to the right of everything it keeps.\<close>

lemma valid_cards_leftmost:
  assumes "it \<in> set raw" and "item_label it \<noteq> CARD_BACK"
  shows "it \<in> set (valid_cards n raw) \<or>
    (length (valid_cards n raw) = n \<and> (\<forall>v \<in> set (valid_cards n raw). fst v \<le> fst it))"
proof -
  let ?F = "filter (\<lambda>it. item_label it \<noteq> CARD_BACK) (sort_key fst raw)"
  have v: "valid_cards n raw = take n ?F" by (rule valid_cards_filter)
  have mem: "it \<in> set ?F" using assms by simp
  have "sorted (map fst (sort_key fst raw))" by (rule sorted_sort_key)
  then have "sorted (map fst ?F)" by (rule sorted_filter)
  then have "sorted (map fst (take n ?F) @ map fst (drop n ?F))"
    by (simp flip: map_append)
  then have ord: "\<forall>x \<in> set (take n ?F). \<forall>y \<in> set (drop n ?F). fst x \<le> fst y"
    by (auto simp add: sorted_append)
  show ?thesis
  proof (cases "it \<in> set (take n ?F)")
    case True
    then show ?thesis by (simp add: v)
  next
    case False
    have "set ?F = set (take n ?F) \<union> set (drop n ?F)"
      using set_append [of "take n ?F" "drop n ?F"] by simp
    with mem False have d: "it \<in> set (drop n ?F)" by blast
    then have "drop n ?F \<noteq> []" by auto
    then have "n < length ?F" by simp
    then have "length (take n ?F) = n" by simp
    with ord d show ?thesis by (simp add: v)
  qed
qed

lemma group_cards_pair:
  "group_cards [a, b] =
    (if fst a \<le> fst b then [item_label a, item_label b] else [item_label b, item_label a])"
  by (simp add: group_cards_def Let_def)

text \<open>The partner found for an item is an index of the list.\<close>

lemma best_partner_fold:
  "foldl (\<lambda>best j.
        if used ! j then best
        else (let d = hypot (fst (items ! i) - fst (items ! j))
                            (item_y (items ! i) - item_y (items ! j))
              in if d < dist_thresh \<and> (case best of None \<Rightarrow> True | Some (b, min_d) \<Rightarrow> d < min_d)
                 then Some (j, d) else best))
      acc js = Some (k, e) \<Longrightarrow>
    (\<exists>e'. acc = Some (k, e')) \<or> k \<in> set js"
proof (induction js arbitrary: acc)
  case Nil
  then show ?case by simp
next
  case (Cons j js)
  from Cons.IH [OF Cons.prems [simplified foldl_Cons]] show ?case
    by (auto simp add: Let_def split: if_splits)
qed

lemma best_partner_range:
  "best_partner items used i dist_thresh = Some (k, e) \<Longrightarrow> k < length items"
  unfolding best_partner_def by (drule best_partner_fold) auto

text \<open>
  Every group of the result is built from one item of the list, or from two, and has
  two entries.
\<close>

lemma agrupar_loop_groups:
  assumes "\<forall>i \<in> set idxs. i < length items"
    and "\<forall>g \<in> set grupos.
      (\<exists>a \<in> set items. g = group_cards [a]) \<or>
      (\<exists>a \<in> set items. \<exists>b \<in> set items. g = group_cards [a, b])"
  shows "\<forall>g \<in> set (agrupar_loop items dist_thresh idxs used grupos).
      (\<exists>a \<in> set items. g = group_cards [a]) \<or>
      (\<exists>a \<in> set items. \<exists>b \<in> set items. g = group_cards [a, b])"
  using assms
proof (induction idxs arbitrary: used grupos)
  case Nil
  then show ?case by simp
next
  case (Cons i rest)
  from Cons.prems(1) have i: "items ! i \<in> set items" and rest: "\<forall>i \<in> set rest. i < length items"
    by simp_all
  show ?case
  proof (cases "used ! i")
    case True
    with Cons.IH [OF rest Cons.prems(2)] show ?thesis by simp
  next
    case False
    show ?thesis
    proof (cases "best_partner items (used[i := True]) i dist_thresh")
      case None
      have "\<forall>g \<in> set (grupos @ [group_cards [items ! i]]).
          (\<exists>a \<in> set items. g = group_cards [a]) \<or>
          (\<exists>a \<in> set items. \<exists>b \<in> set items. g = group_cards [a, b])"
        using Cons.prems(2) i by auto
      from Cons.IH [OF rest this] False None show ?thesis by simp
    next
      case (Some r)
      obtain best_idx min_d where r: "r = (best_idx, min_d)" by (cases r)
      from Some r have "best_idx < length items" by (simp add: best_partner_range)
      then have b: "items ! best_idx \<in> set items" by simp
      have "\<forall>g \<in> set (grupos @ [group_cards [items ! i, items ! best_idx]]).
          (\<exists>a \<in> set items. g = group_cards [a]) \<or>
          (\<exists>a \<in> set items. \<exists>b \<in> set items. g = group_cards [a, b])"
        using Cons.prems(2) i b by auto
      from Cons.IH [OF rest this] False Some r show ?thesis by simp
    qed
  qed
qed

lemma agrupar_rivales_groups:
  "\<forall>g \<in> set (agrupar_rivales items ancho).
      (\<exists>a \<in> set items. g = group_cards [a]) \<or>
      (\<exists>a \<in> set items. \<exists>b \<in> set items. g = group_cards [a, b])"
proof (cases "items = []")
  case True
  then show ?thesis by (simp add: agrupar_rivales_def)
next
  case False
  let ?s = "sort_key fst items"
  have "\<forall>g \<in> set (agrupar_loop ?s (real_of_int ancho * (18 / 100)) [0 ..< length ?s]
        (replicate (length ?s) False) []).
      (\<exists>a \<in> set ?s. g = group_cards [a]) \<or>
      (\<exists>a \<in> set ?s. \<exists>b \<in> set ?s. g = group_cards [a, b])"
    by (rule agrupar_loop_groups) simp_all
  with False show ?thesis
    by (simp add: agrupar_rivales_def Let_def)
qed

subsection \<open>A tick evaluated\<close>

lemma demo_items:
  "List.map_filter (frame_item_of demo_plugin 640 480) demo_detections =
    [(160, 400, ''Kd'', Hero), (100, 400, ''Ah'', Hero), (300, 100, ''card_back'', Opponent)]"
  by (simp add: demo_detections_def frame_item_of_def demo_plugin_def initial_plugin_def
      clasificar_por_layout_def clasificar_por_fallback_def es_label_carta_def CARD_LABELS_def
      CARD_BACK_def MIN_CONFIDENCE_BACK_def MIN_CONFIDENCE_NORMAL_def Let_def)

lemma demo_history:
  "detection_history (fst (process demo_plugin demo_state t_hero now clk)) =
    [[(160, 400, ''Kd'', Hero), (100, 400, ''Ah'', Hero), (300, 100, ''card_back'', Opponent)],
     [(160, 400, ''Kd'', Hero), (100, 400, ''Ah'', Hero), (300, 100, ''card_back'', Opponent)]]"
proof -
  have fr: "frame demo_state = Some (480, 640)" and dets: "detections demo_state = demo_detections"
    by (simp_all add: demo_state_def)
  have h: "detection_history demo_plugin =
      [[(160, 400, ''Kd'', Hero), (100, 400, ''Ah'', Hero), (300, 100, ''card_back'', Opponent)]]"
    by (simp add: demo_plugin_def)
  show ?thesis
    unfolding process_cards(1) [OF fr] dets demo_items h
    by (simp add: deque_append_def BUFFER_SIZE_def)
qed

lemma demo_consolidated:
  "consolidar_buffer
    [[(160, 400, ''Kd'', Hero), (100, 400, ''Ah'', Hero), (300, 100, ''card_back'', Opponent)],
     [(160, 400, ''Kd'', Hero), (100, 400, ''Ah'', Hero), (300, 100, ''card_back'', Opponent)]] =
   ([(160, 400, ''Kd''), (100, 400, ''Ah'')], [], [(300, 100, ''card_back'')])"
  by (simp add: consolidar_buffer_def candidates_of_def build_clusters_def near_def join_def
      new_cluster_def item_y_def item_label_def grid_size_def resolve_clusters_def
      resolve_cluster_def CONFIRMATION_THRESHOLD_def most_common_def first_seen_def)

section \<open>The table format in the game state\<close>

lemma sizer_format_cases: "sizer_format c l = ''6-Max'' \<or> sizer_format c l = ''9-Max''"
  by (simp add: sizer_format_def)

lemma sizer_names: "''6-Max'' \<in> fst ` set GG_LAYOUTS" "''9-Max'' \<in> fst ` set GG_LAYOUTS"
  by (simp_all add: GG_LAYOUTS_def)

lemma table_sizer_writes:
  assumes "table_sizer_process ts st = Inr (ts', st')"
  shows "(frame st = None \<and> st' = st) \<or>
    (frame st \<noteq> None \<and>
     (table_format (gs st') = Some ''6-Max'' \<or> table_format (gs st') = Some ''9-Max''))"
proof (cases "frame st")
  case None
  with assms show ?thesis by (simp add: table_sizer_process_def)
next
  case (Some fr)
  obtain h w where fr: "fr = (h, w)" by (cases fr)
  from assms Some fr obtain c l where "table_format (gs st') = Some (sizer_format c l)"
    by (auto simp add: table_sizer_process_def Let_def
        split: sum.splits option.splits prod.splits)
  with sizer_format_cases [of c l] Some show ?thesis by auto
qed

lemma most_common_single: "most_common [x] = Some x"
  by (simp add: most_common_def first_seen_def)

lemma table_sizer_default:
  assumes "frame st = Some (h, w)" and "detections st = []"
  shows "\<exists>ts' st'. table_sizer_process initial_sizer st = Inr (ts', st') \<and>
    table_format (gs st') = Some ''6-Max''"
  using assms
  by (simp add: table_sizer_process_def initial_sizer_def deque_append_def most_common_single
      contar_niveles_verticales_def sizer_format_def Let_def)

lemma process_table_format:
  "table_format (gs (snd (process p st t_hero now clk))) =
    (if frame st \<noteq> None \<and>
        detected_table_format (reg (fst (process p st t_hero now clk))) \<noteq> DETECTANDO
     then Some (detected_table_format (reg (fst (process p st t_hero now clk))))
     else table_format (gs st))"
  by (cases "frame st") (auto simp add: process_def Let_def split: prod.splits)

lemma inferir_ok: "detected_ok (inferir_formato_geometrico pts)"
  using inferir_names [of pts] by (auto simp add: detected_ok_def)

lemma gestionar_detected_ok:
  "detected_ok (detected_table_format r) \<Longrightarrow>
    detected_ok (detected_table_format (fst (gestionar_asientos r opp_raw ancho alto now clk)))"
  by (auto simp add: gestionar_asientos_def inferir_ok split: prod.splits)

lemma process_detected_ok:
  "detected_ok (detected_table_format (reg p)) \<Longrightarrow>
    detected_ok (detected_table_format (reg (fst (process p st t_hero now clk))))"
  by (cases "frame st") (auto simp add: process_def Let_def gestionar_detected_ok split: prod.splits)

lemma step_keeps:
  assumes "published_ok (table_format (gs (shared w)))"
    and "detected_ok (detected_table_format (reg (detector w)))"
  shows "published_ok (table_format (gs (shared (step w ev)))) \<and>
    detected_ok (detected_table_format (reg (detector (step w ev))))"
proof (cases ev)
  case (Capture f ds)
  with assms show ?thesis by simp
next
  case RunTableSizer
  show ?thesis
  proof (cases "table_sizer_process (sizer w) (shared w)")
    case (Inl e)
    with assms RunTableSizer show ?thesis by simp
  next
    case (Inr res)
    obtain ts st where res: "res = (ts, st)" by (cases res)
    from table_sizer_writes [of "sizer w" "shared w" ts st] Inr res assms(1)
    have "published_ok (table_format (gs st))"
      by (auto simp add: published_ok_def sizer_names)
    with assms(2) RunTableSizer Inr res show ?thesis by simp
  qed
next
  case (RunCardDetector t_hero now clk)
  let ?r = "process (detector w) (shared w) t_hero now clk"
  have d: "detected_ok (detected_table_format (reg (fst ?r)))"
    using assms(2) by (rule process_detected_ok)
  have "published_ok (table_format (gs (snd ?r)))"
    unfolding process_table_format using assms(1) d
    by (auto simp add: published_ok_def detected_ok_def)
  with d RunCardDetector show ?thesis by (simp add: case_prod_beta)
qed

lemma run_keeps:
  "published_ok (table_format (gs (shared w))) \<Longrightarrow>
   detected_ok (detected_table_format (reg (detector w))) \<Longrightarrow>
   published_ok (table_format (gs (shared (run w evs)))) \<and>
   detected_ok (detected_table_format (reg (detector (run w evs))))"
  unfolding run_def
proof (induction evs arbitrary: w)
  case Nil
  then show ?case by simp
next
  case (Cons ev evs)
  from step_keeps [OF Cons.prems, of ev] Cons.IH [of "step w ev"] show ?case by simp
qed

lemma published_ok_not_sentinel: "published_ok tf \<Longrightarrow> tf \<noteq> Some DETECTANDO"
  using sentinel_not_a_layout by (auto simp add: published_ok_def)

section \<open>Claims\<close>

text \<open>
  C1. A seat is created with match count 1 and is updated once per later match. After
  the \<open>k\<close>-th update its count is \<open>k + 2\<close>, and it is CONFIRMED exactly when the
  count has reached the creation threshold 8: it becomes CONFIRMED on the very update
  that brings the count to 8. Along the whole life of the seat the step from CANDIDATE
  to CONFIRMED happens once (as soon as there are 7 updates) and never otherwise, and
  no step goes back from CONFIRMED to CANDIDATE. Within a registry evaluation a seat
  that was CONFIRMED before the matching phase is CONFIRMED after it, matched or not,
  and the clean-up only drops seats, it never changes one. If in every seat of the
  registry the trust state agrees with the count (CONFIRMED exactly when the count is
  at least 8), the same holds after the evaluation.
\<close>

theorem seat_confirmed_once_and_forever:
  "(\<forall>k < length obs.
      detection_count (seat_trace (Seat x0 y0 t0) obs ! k) = int k + 2 \<and>
      is_confirmed (seat_trace (Seat x0 y0 t0) obs ! k) =
        (SEAT_CREATION_FRAMES \<le> detection_count (seat_trace (Seat x0 y0 t0) obs ! k))) \<and>
   promotions False (map is_confirmed (seat_trace (Seat x0 y0 t0) obs)) =
     (if 7 \<le> length obs then 1 else 0) \<and>
   demotions False (map is_confirmed (seat_trace (Seat x0 y0 t0) obs)) = 0 \<and>
   (\<forall>i < length (seats r). is_confirmed (seats r ! i) \<longrightarrow>
      is_confirmed (matched_seats r opp_raw ancho_img clk ! i)) \<and>
   set (seats (fst (gestionar_asientos r opp_raw ancho_img alto_img now clk)))
     \<subseteq> set (seats r) \<union> set (matched_seats r opp_raw ancho_img clk) \<and>
   ((\<forall>s \<in> set (seats r). is_confirmed s = (SEAT_CREATION_FRAMES \<le> detection_count s)) \<longrightarrow>
    (\<forall>s \<in> set (seats (fst (gestionar_asientos r opp_raw ancho_img alto_img now clk))).
       is_confirmed s = (SEAT_CREATION_FRAMES \<le> detection_count s)))"
proof -
  let ?s0 = "Seat x0 y0 t0"
  have s0: "\<not> is_confirmed ?s0" "detection_count ?s0 = 1"
    by (simp_all add: Seat_def)
  have a: "\<forall>k < length obs.
      detection_count (seat_trace ?s0 obs ! k) = int k + 2 \<and>
      is_confirmed (seat_trace ?s0 obs ! k) =
        (SEAT_CREATION_FRAMES \<le> detection_count (seat_trace ?s0 obs ! k))"
    using s0 by (simp add: seat_trace_count seat_trace_confirmed)
  have b: "promotions False (map is_confirmed (seat_trace ?s0 obs)) =
     (if 7 \<le> length obs then 1 else 0)"
    using promotions_trace [OF s0(1), of obs] s0(2)
    by (auto simp add: SEAT_CREATION_FRAMES_def)
  have c: "demotions False (map is_confirmed (seat_trace ?s0 obs)) = 0"
    using demotions_trace [of ?s0 obs] s0(1) by simp
  have d: "\<forall>i < length (seats r). is_confirmed (seats r ! i) \<longrightarrow>
      is_confirmed (matched_seats r opp_raw ancho_img clk ! i)"
    using match_clusters_keeps [of "seats r" ancho_img clk 0 "current_clusters_of opp_raw ancho_img"]
    by (simp add: matched_seats_def)
  have e: "set (seats (fst (gestionar_asientos r opp_raw ancho_img alto_img now clk)))
     \<subseteq> set (seats r) \<union> set (matched_seats r opp_raw ancho_img clk)"
    by (auto simp add: gestionar_asientos_seats)
  have f: "(\<forall>s \<in> set (seats r). is_confirmed s = (SEAT_CREATION_FRAMES \<le> detection_count s)) \<longrightarrow>
    (\<forall>s \<in> set (seats (fst (gestionar_asientos r opp_raw ancho_img alto_img now clk))).
       is_confirmed s = (SEAT_CREATION_FRAMES \<le> detection_count s))"
    using gestionar_asientos_agrees [of r opp_raw ancho_img alto_img now clk] by blast
  from a b c d e f show ?thesis by blast
qed

theorem seat_confirmed_once_and_forever_witness:
  "detection_count (seat_trace (Seat 10 20 0) example_matches ! 6) = 8 \<and>
   is_confirmed (seat_trace (Seat 10 20 0) example_matches ! 6) \<and>
   \<not> is_confirmed (seat_trace (Seat 10 20 0) example_matches ! 5) \<and>
   promotions False (map is_confirmed (seat_trace (Seat 10 20 0) example_matches)) = 1 \<and>
   demotions False (map is_confirmed (seat_trace (Seat 10 20 0) example_matches)) = 0 \<and>
   is_confirmed (matched_seats example_registry [] 640 (clock_at 8) ! 0) \<and>
   list_all (\<lambda>s. is_confirmed s = (SEAT_CREATION_FRAMES \<le> detection_count s))
     (seats (fst (gestionar_asientos example_registry [] 640 480 8 (clock_at 8))))"
proof -
  note c1 = seat_confirmed_once_and_forever
    [of example_matches 10 20 0 example_registry "[]" 640 "clock_at 8" 480 8]
  have len: "length example_matches = 7"
    by (simp add: example_matches_def)
  from c1 len have k6:
    "detection_count (seat_trace (Seat 10 20 0) example_matches ! 6) = int 6 + 2 \<and>
     is_confirmed (seat_trace (Seat 10 20 0) example_matches ! 6) =
       (SEAT_CREATION_FRAMES \<le> detection_count (seat_trace (Seat 10 20 0) example_matches ! 6))"
    by auto
  from c1 len have k5:
    "detection_count (seat_trace (Seat 10 20 0) example_matches ! 5) = int 5 + 2 \<and>
     is_confirmed (seat_trace (Seat 10 20 0) example_matches ! 5) =
       (SEAT_CREATION_FRAMES \<le> detection_count (seat_trace (Seat 10 20 0) example_matches ! 5))"
    by auto
  from c1 len have pr:
    "promotions False (map is_confirmed (seat_trace (Seat 10 20 0) example_matches)) = 1"
    by simp
  from c1 have de:
    "demotions False (map is_confirmed (seat_trace (Seat 10 20 0) example_matches)) = 0"
    by blast
  have reg: "0 < length (seats example_registry)" "is_confirmed (seats example_registry ! 0)"
    by (simp_all add: example_registry_def)
  from c1 reg have keep: "is_confirmed (matched_seats example_registry [] 640 (clock_at 8) ! 0)"
    by blast
  have inv: "\<forall>s \<in> set (seats example_registry).
      is_confirmed s = (SEAT_CREATION_FRAMES \<le> detection_count s)"
    by (simp add: example_registry_def SEAT_CREATION_FRAMES_def)
  from c1 inv have
    "\<forall>s \<in> set (seats (fst (gestionar_asientos example_registry [] 640 480 8 (clock_at 8)))).
      is_confirmed s = (SEAT_CREATION_FRAMES \<le> detection_count s)"
    by blast
  then have after:
    "list_all (\<lambda>s. is_confirmed s = (SEAT_CREATION_FRAMES \<le> detection_count s))
      (seats (fst (gestionar_asientos example_registry [] 640 480 8 (clock_at 8))))"
    by (simp add: list_all_iff)
  from k6 k5 have "detection_count (seat_trace (Seat 10 20 0) example_matches ! 6) = 8 \<and>
     is_confirmed (seat_trace (Seat 10 20 0) example_matches ! 6) \<and>
     \<not> is_confirmed (seat_trace (Seat 10 20 0) example_matches ! 5)"
    by (simp add: SEAT_CREATION_FRAMES_def)
  with pr de keep after show ?thesis by blast
qed

text \<open>
  C9. For a frame of positive width and height and any rectangle from the window
  tracker, the scaled and clamped rectangle lies inside the frame and is at least
  1 by 1.
\<close>

theorem scaled_crop_in_frame:
  "0 < w_img \<Longrightarrow> 0 < h_img \<Longrightarrow> scaled_crop coords_2k w_img h_img = (sx, sy, sw, sh) \<Longrightarrow>
    0 \<le> sx \<and> sx \<le> w_img - 1 \<and> 0 \<le> sy \<and> sy \<le> h_img - 1 \<and>
    1 \<le> sw \<and> sw \<le> w_img - sx \<and> 1 \<le> sh \<and> sh \<le> h_img - sy"
proof -
  assume w: "0 < w_img" and h: "0 < h_img"
    and crop: "scaled_crop coords_2k w_img h_img = (sx, sy, sw, sh)"
  obtain x y w0 h0 where coords: "coords_2k = (x, y, w0, h0)"
    by (cases coords_2k) auto
  from crop have sx: "sx = max 0 (min (py_int (real_of_int x * scale_x)) (w_img - 1))"
    and sy: "sy = max 0 (min (py_int (real_of_int y * scale_y)) (h_img - 1))"
    and sw: "sw = max 1 (min (py_int (real_of_int w0 * scale_x)) (w_img - sx))"
    and sh: "sh = max 1 (min (py_int (real_of_int h0 * scale_y)) (h_img - sy))"
    unfolding coords scaled_crop_def Let_def prod.case prod.inject by blast+
  have x_ok: "0 \<le> sx \<and> sx \<le> w_img - 1"
    unfolding sx using w by (rule clamp_origin)
  have y_ok: "0 \<le> sy \<and> sy \<le> h_img - 1"
    unfolding sy using h by (rule clamp_origin)
  have w_ok: "1 \<le> sw \<and> sw \<le> w_img - sx"
    using x_ok unfolding sw by (intro clamp_extent) simp
  have h_ok: "1 \<le> sh \<and> sh \<le> h_img - sy"
    using y_ok unfolding sh by (intro clamp_extent) simp
  from x_ok y_ok w_ok h_ok show ?thesis by simp
qed

theorem scaled_crop_in_frame_witness:
  "(0::int) < 1920 \<and> (0::int) < 1080 \<and>
   scaled_crop (2000, 1001, 1280, 960) 1920 1080 = (1500, 750, 420, 330) \<and>
   (0::int) \<le> 1500 \<and> (1500::int) \<le> 1920 - 1 \<and> (0::int) \<le> 750 \<and> (750::int) \<le> 1080 - 1 \<and>
   (1::int) \<le> 420 \<and> (420::int) \<le> 1920 - 1500 \<and> (1::int) \<le> 330 \<and> (330::int) \<le> 1080 - 750"
proof -
  have crop: "scaled_crop (2000, 1001, 1280, 960) 1920 1080 = (1500, 750, 420, 330)"
    unfolding scaled_crop_def scale_x_def scale_y_def Let_def prod.case
    by (simp add: py_int_def)
  show ?thesis
    using crop scaled_crop_in_frame [OF _ _ crop] by simp
qed

text \<open>
  C2. In an evaluation over a frame of positive width and height, let the seat list
  after the matching phase be given (with no detections it is the old list). A
  CANDIDATE seat whose age (the evaluation's clock reading minus its last match)
  exceeds 2 s is not in the registry afterwards; a CONFIRMED seat whose age is under
  300 s is kept, and one whose age exceeds 300 s is not. Every seat of the registry
  afterwards comes from the matching phase, and if it is CONFIRMED its age is under
  300 s. The classifier's input is exactly the normalised positions of the CONFIRMED
  seats kept, so no CANDIDATE seat reaches the classifier.
\<close>

theorem registry_expiry:
  "0 < ancho_img \<Longrightarrow> 0 < alto_img \<Longrightarrow>
    matched_seats r [] ancho_img clk = seats r \<and>
    (\<forall>s \<in> set (matched_seats r opp_raw ancho_img clk).
       (\<not> is_confirmed s \<and> SEAT_CANDIDATE_TIMEOUT < seat_age now s \<longrightarrow>
          s \<notin> set (seats (fst (gestionar_asientos r opp_raw ancho_img alto_img now clk)))) \<and>
       (is_confirmed s \<and> seat_age now s < SEAT_CONFIRMED_TIMEOUT \<longrightarrow>
          s \<in> set (seats (fst (gestionar_asientos r opp_raw ancho_img alto_img now clk)))) \<and>
       (is_confirmed s \<and> SEAT_CONFIRMED_TIMEOUT < seat_age now s \<longrightarrow>
          s \<notin> set (seats (fst (gestionar_asientos r opp_raw ancho_img alto_img now clk))))) \<and>
    (\<forall>s \<in> set (seats (fst (gestionar_asientos r opp_raw ancho_img alto_img now clk))).
       s \<in> set (matched_seats r opp_raw ancho_img clk) \<and>
       (is_confirmed s \<longrightarrow> seat_age now s < SEAT_CONFIRMED_TIMEOUT) \<and>
       (\<not> is_confirmed s \<longrightarrow> seat_age now s < SEAT_CANDIDATE_TIMEOUT)) \<and>
    fst (snd (gestionar_asientos r opp_raw ancho_img alto_img now clk)) =
      Some (map (normalise ancho_img alto_img)
        (filter is_confirmed
          (seats (fst (gestionar_asientos r opp_raw ancho_img alto_img now clk))))) \<and>
    detected_table_format (fst (gestionar_asientos r opp_raw ancho_img alto_img now clk)) =
      inferir_formato_geometrico (map (normalise ancho_img alto_img)
        (filter is_confirmed
          (seats (fst (gestionar_asientos r opp_raw ancho_img alto_img now clk)))))"
proof -
  assume pos: "0 < ancho_img" "0 < alto_img"
  let ?M = "matched_seats r opp_raw ancho_img clk"
  let ?g = "gestionar_asientos r opp_raw ancho_img alto_img now clk"
  have kept: "seats (fst ?g) = filter (keep_seat now) ?M"
    using pos by (simp add: gestionar_asientos_seats)
  have idle: "matched_seats r [] ancho_img clk = seats r"
    by (simp add: matched_seats_def current_clusters_of_def)
  have out: "\<forall>s \<in> set ?M.
       (\<not> is_confirmed s \<and> SEAT_CANDIDATE_TIMEOUT < seat_age now s \<longrightarrow> s \<notin> set (seats (fst ?g))) \<and>
       (is_confirmed s \<and> seat_age now s < SEAT_CONFIRMED_TIMEOUT \<longrightarrow> s \<in> set (seats (fst ?g))) \<and>
       (is_confirmed s \<and> SEAT_CONFIRMED_TIMEOUT < seat_age now s \<longrightarrow> s \<notin> set (seats (fst ?g)))"
    unfolding kept by (auto simp add: keep_seat_def)
  have inv: "\<forall>s \<in> set (seats (fst ?g)).
       s \<in> set ?M \<and>
       (is_confirmed s \<longrightarrow> seat_age now s < SEAT_CONFIRMED_TIMEOUT) \<and>
       (\<not> is_confirmed s \<longrightarrow> seat_age now s < SEAT_CANDIDATE_TIMEOUT)"
    unfolding kept by (auto simp add: keep_seat_def)
  have pts: "fst (snd ?g) =
      Some (map (normalise ancho_img alto_img) (filter is_confirmed (seats (fst ?g))))"
    using pos by (simp add: gestionar_asientos_def collect_seats_filter)
  have fmt: "detected_table_format (fst ?g) =
      inferir_formato_geometrico
        (map (normalise ancho_img alto_img) (filter is_confirmed (seats (fst ?g))))"
    using pos by (simp add: gestionar_asientos_def collect_seats_filter)
  from idle out inv pts fmt show ?thesis by blast
qed

theorem registry_expiry_witness:
  "(0::int) < 640 \<and> (0::int) < 480 \<and>
   stale_candidate \<notin> set (seats (fst (gestionar_asientos aged_registry [] 640 480 100 (clock_at 100)))) \<and>
   recent_confirmed \<in> set (seats (fst (gestionar_asientos aged_registry [] 640 480 100 (clock_at 100)))) \<and>
   stale_confirmed \<notin> set (seats (fst (gestionar_asientos aged_registry [] 640 480 100 (clock_at 100)))) \<and>
   fst (snd (gestionar_asientos aged_registry [] 640 480 100 (clock_at 100))) =
     Some (map (normalise 640 480)
       (filter is_confirmed
         (seats (fst (gestionar_asientos aged_registry [] 640 480 100 (clock_at 100))))))"
proof -
  have pos: "(0::int) < 640" "(0::int) < 480" by simp_all
  note c2 = registry_expiry [OF pos, of aged_registry "clock_at 100" "[]" 100]
  from c2 have M: "matched_seats aged_registry [] 640 (clock_at 100) = seats aged_registry"
    by blast
  have mem: "stale_candidate \<in> set (matched_seats aged_registry [] 640 (clock_at 100))"
    "recent_confirmed \<in> set (matched_seats aged_registry [] 640 (clock_at 100))"
    "stale_confirmed \<in> set (matched_seats aged_registry [] 640 (clock_at 100))"
    unfolding M by (simp_all add: aged_registry_def)
  have a: "\<not> is_confirmed stale_candidate \<and> SEAT_CANDIDATE_TIMEOUT < seat_age 100 stale_candidate"
    by (simp add: stale_candidate_def seat_age_def SEAT_CANDIDATE_TIMEOUT_def)
  have b: "is_confirmed recent_confirmed \<and> seat_age 100 recent_confirmed < SEAT_CONFIRMED_TIMEOUT"
    by (simp add: recent_confirmed_def seat_age_def SEAT_CONFIRMED_TIMEOUT_def)
  have c: "is_confirmed stale_confirmed \<and> SEAT_CONFIRMED_TIMEOUT < seat_age 100 stale_confirmed"
    by (simp add: stale_confirmed_def seat_age_def SEAT_CONFIRMED_TIMEOUT_def)
  from c2 mem(1) a have 1: "stale_candidate \<notin>
      set (seats (fst (gestionar_asientos aged_registry [] 640 480 100 (clock_at 100))))"
    by blast
  from c2 mem(2) b have 2: "recent_confirmed \<in>
      set (seats (fst (gestionar_asientos aged_registry [] 640 480 100 (clock_at 100))))"
    by blast
  from c2 mem(3) c have 3: "stale_confirmed \<notin>
      set (seats (fst (gestionar_asientos aged_registry [] 640 480 100 (clock_at 100))))"
    by blast
  from c2 have 4: "fst (snd (gestionar_asientos aged_registry [] 640 480 100 (clock_at 100))) =
     Some (map (normalise 640 480)
       (filter is_confirmed
         (seats (fst (gestionar_asientos aged_registry [] 640 480 100 (clock_at 100))))))"
    by blast
  from pos 1 2 3 4 show ?thesis by blast
qed

text \<open>
  C5 (amended). With a frame of width or height not above zero the registry returns at
  once: it does no matching and no expiry either, the seat list and the detected format
  stay as they were, the classifier is not called and the count returned is 0.
\<close>

theorem degenerate_frame_is_noop:
  "ancho_img \<le> 0 \<or> alto_img \<le> 0 \<Longrightarrow>
    gestionar_asientos r opp_raw ancho_img alto_img now clk = (r, None, 0)"
  by (simp add: gestionar_asientos_def)

theorem degenerate_frame_is_noop_witness:
  "((0::int) \<le> 0 \<or> (480::int) \<le> 0) \<and>
   gestionar_asientos aged_registry [(100, 50, ''As'')] 0 480 100 (clock_at 100) =
     (aged_registry, None, 0)"
  using degenerate_frame_is_noop [of 0 480 aged_registry "[(100, 50, ''As'')]" 100 "clock_at 100"]
  by simp

text \<open>
  C5 as stated does not hold: with a frame of width 0 the CANDIDATE seat that is past its
  timeout stays in the registry, while the same tick with a 640 by 480 frame removes it.
\<close>

theorem degenerate_frame_keeps_expired_seat:
  "\<not> keep_seat 100 stale_candidate \<and>
   stale_candidate \<in> set (seats (fst (gestionar_asientos aged_registry [] 0 480 100 (clock_at 100)))) \<and>
   stale_candidate \<notin> set (seats (fst (gestionar_asientos aged_registry [] 640 480 100 (clock_at 100))))"
  by (simp add: gestionar_asientos_seats matched_seats_def current_clusters_of_def
      aged_registry_def keep_seat_def seat_age_def stale_candidate_def recent_confirmed_def
      stale_confirmed_def SEAT_CANDIDATE_TIMEOUT_def SEAT_CONFIRMED_TIMEOUT_def)

text \<open>
  C3. The classifier run on a layout's own coordinate list. For 3-Max, 4-Max, 5-Max,
  6-Max and 8-Max it returns the layout's own name, and the winning score is 0, under
  the rejection ceiling 3. For 9-Max it does not: all nine points lie within the
  tolerance of the seven seats of 6-Max, whose empty-seat term \<open>(7 - 9) * 0.1\<close> is then
  negative, so 6-Max wins with a score below zero and the classifier returns 6-Max.
\<close>

theorem own_coordinates_classification:
  "best_fit (layout_of ''3-Max'') = (''3-Max'', Some 0) \<and>
   inferir_formato_geometrico (layout_of ''3-Max'') = ''3-Max'' \<and>
   best_fit (layout_of ''4-Max'') = (''4-Max'', Some 0) \<and>
   inferir_formato_geometrico (layout_of ''4-Max'') = ''4-Max'' \<and>
   best_fit (layout_of ''5-Max'') = (''5-Max'', Some 0) \<and>
   inferir_formato_geometrico (layout_of ''5-Max'') = ''5-Max'' \<and>
   best_fit (layout_of ''6-Max'') = (''6-Max'', Some 0) \<and>
   inferir_formato_geometrico (layout_of ''6-Max'') = ''6-Max'' \<and>
   best_fit (layout_of ''8-Max'') = (''8-Max'', Some 0) \<and>
   inferir_formato_geometrico (layout_of ''8-Max'') = ''8-Max'' \<and>
   (\<exists>s. s < 0 \<and> best_fit (layout_of ''9-Max'') = (''6-Max'', Some s)) \<and>
   inferir_formato_geometrico (layout_of ''9-Max'') = ''6-Max''"
proof -
  have own: "inferir_formato_geometrico (layout_of n) = n"
    if "layout_of n \<noteq> []" and "best_fit (layout_of n) = (n, Some 0)" for n
    using that inferir_of_best_fit [of "layout_of n" n 0] by simp
  obtain s where s: "s < - (5 / 100)" and b9: "best_fit (layout_of ''9-Max'') = (''6-Max'', Some s)"
    using best_fit_9 by blast
  have i9: "inferir_formato_geometrico (layout_of ''9-Max'') = ''6-Max''"
  proof (rule inferir_of_best_fit [OF layouts_nonempty(6) b9])
    from s show "s \<le> 3" by linarith
  qed
  have e9: "\<exists>s. s < 0 \<and> best_fit (layout_of ''9-Max'') = (''6-Max'', Some s)"
    using s b9 by (intro exI [of _ s]) simp
  show ?thesis
    using best_fit_3 best_fit_4 best_fit_5 best_fit_6 best_fit_8
      own [OF layouts_nonempty(1) best_fit_3] own [OF layouts_nonempty(2) best_fit_4]
      own [OF layouts_nonempty(3) best_fit_5] own [OF layouts_nonempty(4) best_fit_6]
      own [OF layouts_nonempty(5) best_fit_8] e9 i9
    by blast
qed

text \<open>
  C7 (amended). The classifier returns the sentinel exactly when the list of confirmed
  points is empty or every layout is either skipped for lack of a match or scores above
  the rejection ceiling 3; in every other case it returns a name of the layout table.
  For a non-empty list every layout has at least one matched point (the hero point,
  present or injected), so there the sentinel is always due to the ceiling.
\<close>

theorem sentinel_iff_empty_or_above_ceiling:
  "(inferir_formato_geometrico pts = DETECTANDO \<longleftrightarrow>
      pts = [] \<or> (\<forall>x \<in> set GG_LAYOUTS. beaten_by 3 (puntos_test_of pts) (snd x))) \<and>
   (inferir_formato_geometrico pts \<noteq> DETECTANDO \<longrightarrow>
      inferir_formato_geometrico pts \<in> fst ` set GG_LAYOUTS) \<and>
   (pts \<noteq> [] \<longrightarrow>
      (\<forall>x \<in> set GG_LAYOUTS. 0 < snd (match_points (snd x) (puntos_test_of pts) (0, 0))))"
proof -
  have "\<forall>x \<in> set GG_LAYOUTS. 0 < snd (match_points (snd x) (puntos_test_of pts) (0, 0))"
    if "pts \<noteq> []"
    using hero_always_matched [OF that] hero_in_table by blast
  with inferir_sentinel_iff [of pts] inferir_names [of pts] show ?thesis by blast
qed

theorem sentinel_iff_empty_or_above_ceiling_witness:
  "hero_only \<noteq> [] \<and>
   (''3-Max'', layout_of ''3-Max'') \<in> set GG_LAYOUTS \<and>
   \<not> beaten_by 3 (puntos_test_of hero_only) (layout_of ''3-Max'') \<and>
   inferir_formato_geometrico hero_only \<noteq> DETECTANDO \<and>
   inferir_formato_geometrico hero_only \<in> fst ` set GG_LAYOUTS \<and>
   0 < snd (match_points (layout_of ''3-Max'') (puntos_test_of hero_only) (0, 0))"
proof -
  note c7 = sentinel_iff_empty_or_above_ceiling [of hero_only]
  have ne: "hero_only \<noteq> []" by (simp add: hero_only_def)
  have mem: "(''3-Max'', layout_of ''3-Max'') \<in> set GG_LAYOUTS"
    by (simp add: layouts_table)
  have test: "puntos_test_of hero_only = hero_only"
    by (simp add: puntos_test_of_def hero_present_def hero_only_def)
  have "layout_score (layout_of ''3-Max'') hero_only =
      Some (real_of_int (int (length (layout_of ''3-Max'')) - int (length hero_only)) * (1 / 10))"
    by (rule layout_score_own) (simp_all add: hero_only_def layout_3)
  moreover have "length hero_only = 1" by (simp add: hero_only_def)
  ultimately have nb: "\<not> beaten_by 3 (puntos_test_of hero_only) (layout_of ''3-Max'')"
    by (simp add: test beaten_by_def layouts_length)
  from mem nb have "\<not> (\<forall>x \<in> set GG_LAYOUTS. beaten_by 3 (puntos_test_of hero_only) (snd x))"
    by force
  with c7 ne have res: "inferir_formato_geometrico hero_only \<noteq> DETECTANDO" by blast
  with c7 have nm: "inferir_formato_geometrico hero_only \<in> fst ` set GG_LAYOUTS" by blast
  from c7 ne mem have
    "0 < snd (match_points (snd (''3-Max'', layout_of ''3-Max'')) (puntos_test_of hero_only) (0, 0))"
    by blast
  with ne mem nb res nm show ?thesis by simp
qed

text \<open>
  C7 as stated does not hold: for the single confirmed point (0.5, 0) the classifier
  returns the sentinel although the 3-Max layout has one matched point (the injected
  hero); the unmatched point costs 5, which puts every score above the ceiling.
\<close>

theorem sentinel_despite_matched_point:
  "inferir_formato_geometrico far_points = DETECTANDO \<and>
   snd (match_points (layout_of ''3-Max'') (puntos_test_of far_points) (0, 0)) = 1"
  using far_sentinel far_one_match by simp

text \<open>
  C8 (amended). When two layouts of the table have the same score, not above the
  rejection ceiling, and every other layout is skipped or scores above it, the
  classifier returns the one that comes first in the table. That layout never has more
  coordinates than the other, and it has fewer unless the two are 8-Max and 9-Max, which
  both have nine; a tie between these two returns 8-Max.
\<close>

theorem tie_returns_first_in_table:
  "puntos \<noteq> [] \<Longrightarrow> i < j \<Longrightarrow> j < length GG_LAYOUTS \<Longrightarrow>
   layout_score (snd (GG_LAYOUTS ! i)) (puntos_test_of puntos) = Some s \<Longrightarrow>
   layout_score (snd (GG_LAYOUTS ! j)) (puntos_test_of puntos) = Some s \<Longrightarrow>
   s \<le> 3 \<Longrightarrow>
   \<forall>k < length GG_LAYOUTS. k \<noteq> i \<and> k \<noteq> j \<longrightarrow>
     beaten_by s (puntos_test_of puntos) (snd (GG_LAYOUTS ! k)) \<Longrightarrow>
   inferir_formato_geometrico puntos = fst (GG_LAYOUTS ! i) \<and>
   length (snd (GG_LAYOUTS ! i)) \<le> length (snd (GG_LAYOUTS ! j)) \<and>
   (length (snd (GG_LAYOUTS ! i)) = length (snd (GG_LAYOUTS ! j)) \<longrightarrow>
      fst (GG_LAYOUTS ! i) = ''8-Max'' \<and> fst (GG_LAYOUTS ! j) = ''9-Max'')"
proof -
  assume ne: "puntos \<noteq> []" and ij: "i < j" "j < length GG_LAYOUTS"
    and si: "layout_score (snd (GG_LAYOUTS ! i)) (puntos_test_of puntos) = Some s"
    and sj: "layout_score (snd (GG_LAYOUTS ! j)) (puntos_test_of puntos) = Some s"
    and ceil: "s \<le> 3"
    and others: "\<forall>k < length GG_LAYOUTS. k \<noteq> i \<and> k \<noteq> j \<longrightarrow>
      beaten_by s (puntos_test_of puntos) (snd (GG_LAYOUTS ! k))"
  have "best_fit puntos = (fst (GG_LAYOUTS ! i), Some s)"
    unfolding best_fit_def using ij si sj others by (rule layouts_loop_tie)
  with ne have "inferir_formato_geometrico puntos = fst (GG_LAYOUTS ! i)"
    using ceil by (rule inferir_of_best_fit)
  with table_order [OF ij] show ?thesis by blast
qed

theorem tie_returns_first_in_table_witness:
  "tie_points \<noteq> [] \<and> (4::nat) < 5 \<and> 5 < length GG_LAYOUTS \<and>
   layout_score (snd (GG_LAYOUTS ! 4)) (puntos_test_of tie_points) = Some tie_score \<and>
   layout_score (snd (GG_LAYOUTS ! 5)) (puntos_test_of tie_points) = Some tie_score \<and>
   tie_score \<le> 3 \<and>
   inferir_formato_geometrico tie_points = fst (GG_LAYOUTS ! 4) \<and>
   length (snd (GG_LAYOUTS ! 4)) \<le> length (snd (GG_LAYOUTS ! 5))"
proof -
  have ne: "tie_points \<noteq> []" by (simp add: tie_points_def)
  have len: "length GG_LAYOUTS = 6" by (simp add: GG_LAYOUTS_def)
  have ij: "(4::nat) < 5" "5 < length GG_LAYOUTS" by (simp_all add: len)
  have nth:
    "snd (GG_LAYOUTS ! 0) = layout_of ''3-Max''" "snd (GG_LAYOUTS ! Suc 0) = layout_of ''4-Max''"
    "snd (GG_LAYOUTS ! 2) = layout_of ''5-Max''" "snd (GG_LAYOUTS ! 3) = layout_of ''6-Max''"
    "snd (GG_LAYOUTS ! 4) = layout_of ''8-Max''" "snd (GG_LAYOUTS ! 5) = layout_of ''9-Max''"
    by (simp_all add: layouts_table)
  have s4: "layout_score (snd (GG_LAYOUTS ! 4)) (puntos_test_of tie_points) = Some tie_score"
    by (simp add: nth tie_score_8)
  have s5: "layout_score (snd (GG_LAYOUTS ! 5)) (puntos_test_of tie_points) = Some tie_score"
    by (simp add: nth tie_score_9)
  have others: "\<forall>k < length GG_LAYOUTS. k \<noteq> 4 \<and> k \<noteq> 5 \<longrightarrow>
      beaten_by tie_score (puntos_test_of tie_points) (snd (GG_LAYOUTS ! k))"
  proof (intro allI impI)
    fix k assume "k < length GG_LAYOUTS" and "k \<noteq> 4 \<and> k \<noteq> 5"
    then consider "k = 0" | "k = 1" | "k = 2" | "k = 3"
      unfolding len by linarith
    then show "beaten_by tie_score (puntos_test_of tie_points) (snd (GG_LAYOUTS ! k))"
      by cases (simp_all add: nth tie_others)
  qed
  from tie_returns_first_in_table [OF ne ij s4 s5 tie_score_le others] ne ij s4 s5 tie_score_le
  show ?thesis by blast
qed

text \<open>
  C8 as stated does not hold: for the single confirmed point (0.35, 0.09) the layouts
  8-Max and 9-Max have the same score, under the ceiling, and the four other layouts
  score above it; the classifier returns 8-Max, whose coordinate list is as long as that
  of 9-Max, so neither of the two is the layout with fewer seats.
\<close>

theorem tie_between_equal_sizes:
  "layout_score (layout_of ''8-Max'') (puntos_test_of tie_points) = Some tie_score \<and>
   layout_score (layout_of ''9-Max'') (puntos_test_of tie_points) = Some tie_score \<and>
   tie_score \<le> 3 \<and>
   beaten_by tie_score (puntos_test_of tie_points) (layout_of ''3-Max'') \<and>
   beaten_by tie_score (puntos_test_of tie_points) (layout_of ''4-Max'') \<and>
   beaten_by tie_score (puntos_test_of tie_points) (layout_of ''5-Max'') \<and>
   beaten_by tie_score (puntos_test_of tie_points) (layout_of ''6-Max'') \<and>
   inferir_formato_geometrico tie_points = ''8-Max'' \<and>
   length (layout_of ''8-Max'') = 9 \<and> length (layout_of ''9-Max'') = 9"
  using tie_score_8 tie_score_9 tie_score_le tie_others tie_result layouts_length(5,6)
  by simp

text \<open>
  C6 (amended). During consolidation each detection is tried against the clusters in the
  order of their creation: it is added to the first cluster whose centroid is within
  30 pixels of it in both coordinates, whether or not a later cluster is nearer, and it
  starts a new cluster, appended to the list, when no cluster passes the test.
\<close>

theorem detection_joins_first_cluster_in_reach:
  "((\<forall>c \<in> set cls. \<not> near c d) \<longrightarrow> add_to_clusters cls d = cls @ [new_cluster d]) \<and>
   (\<forall>i < length cls. near (cls ! i) d \<and> (\<forall>j < i. \<not> near (cls ! j) d) \<longrightarrow>
      add_to_clusters cls d = cls[i := join (cls ! i) d]) \<and>
   build_clusters (items @ [d]) = add_to_clusters (build_clusters items) d"
  using add_to_clusters_none [of cls d] add_to_clusters_first [of _ cls d]
    build_clusters_snoc [of items d]
  by blast

theorem detection_joins_first_cluster_in_reach_witness:
  "(0::nat) < length [cluster_a, cluster_b] \<and>
   near ([cluster_a, cluster_b] ! 0) between_item \<and>
   add_to_clusters [cluster_a, cluster_b] between_item =
     [cluster_a, cluster_b][0 := join ([cluster_a, cluster_b] ! 0) between_item] \<and>
   build_clusters ([(0, 0, ''Ah''), (40, 0, ''Kd'')] @ [between_item]) =
     add_to_clusters (build_clusters [(0, 0, ''Ah''), (40, 0, ''Kd'')]) between_item"
proof -
  note c6 = detection_joins_first_cluster_in_reach
    [of "[cluster_a, cluster_b]" between_item "[(0, 0, ''Ah''), (40, 0, ''Kd'')]"]
  have len: "(0::nat) < length [cluster_a, cluster_b]" by simp
  have nr: "near ([cluster_a, cluster_b] ! 0) between_item"
    by (simp add: near_def cluster_a_def between_item_def item_y_def grid_size_def)
  have first: "\<forall>j < (0::nat). \<not> near ([cluster_a, cluster_b] ! j) between_item" by simp
  from c6 len nr first have "add_to_clusters [cluster_a, cluster_b] between_item =
     [cluster_a, cluster_b][0 := join ([cluster_a, cluster_b] ! 0) between_item]"
    by blast
  with c6 len nr show ?thesis by blast
qed

text \<open>
  C6 as stated does not hold: after detections at (0, 0) and (40, 0) have started two
  clusters, a detection at (25, 0) is within the tolerance of both and nearer to the
  second (15 against 25), and it is added to the first.
\<close>

theorem detection_joins_farther_cluster:
  "build_clusters [(0, 0, ''Ah''), (40, 0, ''Kd'')] = [cluster_a, cluster_b] \<and>
   near cluster_a between_item \<and> near cluster_b between_item \<and>
   centroid_distance cluster_b between_item < centroid_distance cluster_a between_item \<and>
   build_clusters [(0, 0, ''Ah''), (40, 0, ''Kd''), between_item] =
     [join cluster_a between_item, cluster_b]"
  by (simp add: build_clusters_def near_def new_cluster_def cluster_a_def cluster_b_def
      between_item_def item_y_def item_label_def grid_size_def centroid_distance_def hypot_def)

text \<open>
  C4. After a tick with a frame, let the hero, board and opponent items be those that
  the consolidation yields on the updated buffer. The published hero cards are the
  labels, in this order, of the hero items kept by the post-processing; the items kept
  are at most two, none carries the face-down label, their horizontal positions
  ascend, each is a consolidated hero item, and a consolidated hero item without the
  face-down label that is not kept lies at or to the right of every item kept, which
  are then two. The board cards likewise, with five for two. The published opponent
  groups are the groups formed from the opponent items: every group has exactly two
  entries and is built from one item or from two; a group built from a single item
  holds that item's label twice, a group built from two holds their labels in
  ascending order of horizontal position.
\<close>

theorem published_observation_well_formed:
  "frame st = Some (alto_img, ancho_img) \<Longrightarrow>
   hero_raw = fst (consolidar_buffer (detection_history (fst (process p st t_hero now clk)))) \<Longrightarrow>
   board_raw =
     fst (snd (consolidar_buffer (detection_history (fst (process p st t_hero now clk))))) \<Longrightarrow>
   opp_raw =
     snd (snd (consolidar_buffer (detection_history (fst (process p st t_hero now clk))))) \<Longrightarrow>
   (my_cards (gs (snd (process p st t_hero now clk))) =
      Some (map item_label (valid_cards 2 hero_raw)) \<and>
    length (valid_cards 2 hero_raw) \<le> 2 \<and>
    CARD_BACK \<notin> set (map item_label (valid_cards 2 hero_raw)) \<and>
    sorted (map fst (valid_cards 2 hero_raw)) \<and>
    set (valid_cards 2 hero_raw) \<subseteq> set hero_raw \<and>
    (\<forall>it \<in> set hero_raw. item_label it \<noteq> CARD_BACK \<longrightarrow>
       it \<in> set (valid_cards 2 hero_raw) \<or>
       (length (valid_cards 2 hero_raw) = 2 \<and>
        (\<forall>v \<in> set (valid_cards 2 hero_raw). fst v \<le> fst it)))) \<and>
   (board (gs (snd (process p st t_hero now clk))) =
      Some (map item_label (valid_cards 5 board_raw)) \<and>
    length (valid_cards 5 board_raw) \<le> 5 \<and>
    CARD_BACK \<notin> set (map item_label (valid_cards 5 board_raw)) \<and>
    sorted (map fst (valid_cards 5 board_raw)) \<and>
    set (valid_cards 5 board_raw) \<subseteq> set board_raw \<and>
    (\<forall>it \<in> set board_raw. item_label it \<noteq> CARD_BACK \<longrightarrow>
       it \<in> set (valid_cards 5 board_raw) \<or>
       (length (valid_cards 5 board_raw) = 5 \<and>
        (\<forall>v \<in> set (valid_cards 5 board_raw). fst v \<le> fst it)))) \<and>
   (opponents_cards (gs (snd (process p st t_hero now clk))) =
      Some (agrupar_rivales opp_raw ancho_img) \<and>
    (\<forall>g \<in> set (agrupar_rivales opp_raw ancho_img).
       length g = 2 \<and>
       ((\<exists>a \<in> set opp_raw. g = group_cards [a]) \<or>
        (\<exists>a \<in> set opp_raw. \<exists>b \<in> set opp_raw. g = group_cards [a, b])))) \<and>
   group_cards [a] = [item_label a, item_label a] \<and>
   group_cards [a, b] =
     (if fst a \<le> fst b then [item_label a, item_label b] else [item_label b, item_label a]) \<and>
   agrupar_rivales [it] ancho_img = [[item_label it, item_label it]]"
proof -
  assume fr: "frame st = Some (alto_img, ancho_img)"
    and h: "hero_raw =
      fst (consolidar_buffer (detection_history (fst (process p st t_hero now clk))))"
    and b: "board_raw =
      fst (snd (consolidar_buffer (detection_history (fst (process p st t_hero now clk)))))"
    and o: "opp_raw =
      snd (snd (consolidar_buffer (detection_history (fst (process p st t_hero now clk)))))"
  have hero: "my_cards (gs (snd (process p st t_hero now clk))) =
      Some (map item_label (valid_cards 2 hero_raw)) \<and>
    length (valid_cards 2 hero_raw) \<le> 2 \<and>
    CARD_BACK \<notin> set (map item_label (valid_cards 2 hero_raw)) \<and>
    sorted (map fst (valid_cards 2 hero_raw)) \<and>
    set (valid_cards 2 hero_raw) \<subseteq> set hero_raw \<and>
    (\<forall>it \<in> set hero_raw. item_label it \<noteq> CARD_BACK \<longrightarrow>
       it \<in> set (valid_cards 2 hero_raw) \<or>
       (length (valid_cards 2 hero_raw) = 2 \<and>
        (\<forall>v \<in> set (valid_cards 2 hero_raw). fst v \<le> fst it)))"
    unfolding h
    using process_cards(2) [OF fr, of p t_hero now clk]
      valid_cards_length valid_cards_no_back valid_cards_sorted valid_cards_subset
      valid_cards_leftmost
    by blast
  have brd: "board (gs (snd (process p st t_hero now clk))) =
      Some (map item_label (valid_cards 5 board_raw)) \<and>
    length (valid_cards 5 board_raw) \<le> 5 \<and>
    CARD_BACK \<notin> set (map item_label (valid_cards 5 board_raw)) \<and>
    sorted (map fst (valid_cards 5 board_raw)) \<and>
    set (valid_cards 5 board_raw) \<subseteq> set board_raw \<and>
    (\<forall>it \<in> set board_raw. item_label it \<noteq> CARD_BACK \<longrightarrow>
       it \<in> set (valid_cards 5 board_raw) \<or>
       (length (valid_cards 5 board_raw) = 5 \<and>
        (\<forall>v \<in> set (valid_cards 5 board_raw). fst v \<le> fst it)))"
    unfolding b
    using process_cards(3) [OF fr, of p t_hero now clk]
      valid_cards_length valid_cards_no_back valid_cards_sorted valid_cards_subset
      valid_cards_leftmost
    by blast
  have opp: "opponents_cards (gs (snd (process p st t_hero now clk))) =
      Some (agrupar_rivales opp_raw ancho_img) \<and>
    (\<forall>g \<in> set (agrupar_rivales opp_raw ancho_img).
       length g = 2 \<and>
       ((\<exists>a \<in> set opp_raw. g = group_cards [a]) \<or>
        (\<exists>a \<in> set opp_raw. \<exists>b \<in> set opp_raw. g = group_cards [a, b])))"
    unfolding o
    using process_cards(4) [OF fr, of p t_hero now clk]
      agrupar_rivales_pairs agrupar_rivales_groups
    by blast
  from hero brd opp group_cards_one [of a] group_cards_pair [of a b]
    agrupar_rivales_single [of it ancho_img]
  show ?thesis by blast
qed

theorem published_observation_well_formed_witness:
  "frame demo_state = Some (480, 640) \<and>
   fst (consolidar_buffer
     (detection_history (fst (process demo_plugin demo_state 1 1 (clock_at 1))))) =
     [(160, 400, ''Kd''), (100, 400, ''Ah'')] \<and>
   snd (snd (consolidar_buffer
     (detection_history (fst (process demo_plugin demo_state 1 1 (clock_at 1)))))) =
     [(300, 100, ''card_back'')] \<and>
   valid_cards 2 [(160, 400, ''Kd''), (100, 400, ''Ah'')] =
     [(100, 400, ''Ah''), (160, 400, ''Kd'')] \<and>
   my_cards (gs (snd (process demo_plugin demo_state 1 1 (clock_at 1)))) = Some [''Ah'', ''Kd''] \<and>
   sorted (map fst (valid_cards 2 [(160, 400, ''Kd''), (100, 400, ''Ah'')])) \<and>
   board (gs (snd (process demo_plugin demo_state 1 1 (clock_at 1)))) = Some [] \<and>
   opponents_cards (gs (snd (process demo_plugin demo_state 1 1 (clock_at 1)))) =
     Some [[''card_back'', ''card_back'']]"
proof -
  let ?h = "detection_history (fst (process demo_plugin demo_state 1 1 (clock_at 1)))"
  have fr: "frame demo_state = Some (480, 640)"
    by (simp add: demo_state_def)
  have hr: "fst (consolidar_buffer ?h) = [(160, 400, ''Kd''), (100, 400, ''Ah'')]"
    and br: "fst (snd (consolidar_buffer ?h)) = []"
    and orw: "snd (snd (consolidar_buffer ?h)) = [(300, 100, ''card_back'')]"
    unfolding demo_history demo_consolidated by simp_all
  note c4 = published_observation_well_formed
    [OF fr hr [symmetric] br [symmetric] orw [symmetric],
     of "(300, 100, ''card_back'')" "(300, 100, ''card_back'')" "(300, 100, ''card_back'')"]
  have vc: "valid_cards 2 [(160, 400, ''Kd''), (100, 400, ''Ah'')] =
      [(100, 400, ''Ah''), (160, 400, ''Kd'')]"
    by (simp add: valid_cards_filter item_label_def CARD_BACK_def)
  from c4 have "my_cards (gs (snd (process demo_plugin demo_state 1 1 (clock_at 1)))) =
      Some (map item_label (valid_cards 2 [(160, 400, ''Kd''), (100, 400, ''Ah'')]))"
    by blast
  then have hero: "my_cards (gs (snd (process demo_plugin demo_state 1 1 (clock_at 1)))) =
      Some [''Ah'', ''Kd'']"
    by (simp add: vc item_label_def)
  from c4 have srt: "sorted (map fst (valid_cards 2 [(160, 400, ''Kd''), (100, 400, ''Ah'')]))"
    by blast
  from c4 have "board (gs (snd (process demo_plugin demo_state 1 1 (clock_at 1)))) =
      Some (map item_label (valid_cards 5 []))"
    by blast
  then have brd: "board (gs (snd (process demo_plugin demo_state 1 1 (clock_at 1)))) = Some []"
    by (simp add: valid_cards_filter)
  from c4 have "opponents_cards (gs (snd (process demo_plugin demo_state 1 1 (clock_at 1)))) =
      Some (agrupar_rivales [(300, 100, ''card_back'')] 640)"
    and "agrupar_rivales [(300, 100, ''card_back'')] 640 =
      [[item_label (300, 100, ''card_back''), item_label (300, 100, ''card_back'')]]"
    by blast+
  then have opp: "opponents_cards (gs (snd (process demo_plugin demo_state 1 1 (clock_at 1)))) =
      Some [[''card_back'', ''card_back'']]"
    by (simp add: item_label_def)
  from fr hr orw vc hero srt brd opp show ?thesis by blast
qed

text \<open>
  C10. Start from a state in which the game state has no table format yet and the
  detector's own format is the sentinel, as after construction. After any sequence of
  captures and runs of the two stages the published table format is absent or a name of
  the layout table, and never the sentinel. The table sizer, when it completes on a
  frame, writes 6-Max or 9-Max (6-Max on its first frame when there are no detections),
  and writes nothing without a frame. The card detector overwrites the field only with
  its own resolved format; while that is the sentinel the previous value stays.
\<close>

theorem table_format_never_unresolved:
  "table_format (gs (shared w)) = None \<Longrightarrow>
   detected_table_format (reg (detector w)) = DETECTANDO \<Longrightarrow>
   published_ok (table_format (gs (shared (run w evs)))) \<and>
   table_format (gs (shared (run w evs))) \<noteq> Some DETECTANDO \<and>
   (table_sizer_process ts st = Inr (ts', st') \<longrightarrow>
      (frame st = None \<and> st' = st) \<or>
      (frame st \<noteq> None \<and>
       (table_format (gs st') = Some ''6-Max'' \<or> table_format (gs st') = Some ''9-Max''))) \<and>
   (frame st = Some (alto, ancho) \<and> detections st = [] \<longrightarrow>
      (\<exists>ts1 st1. table_sizer_process initial_sizer st = Inr (ts1, st1) \<and>
         table_format (gs st1) = Some ''6-Max'')) \<and>
   table_format (gs (snd (process p st t_hero now clk))) =
     (if frame st \<noteq> None \<and>
         detected_table_format (reg (fst (process p st t_hero now clk))) \<noteq> DETECTANDO
      then Some (detected_table_format (reg (fst (process p st t_hero now clk))))
      else table_format (gs st))"
proof -
  assume a: "table_format (gs (shared w)) = None"
    and b: "detected_table_format (reg (detector w)) = DETECTANDO"
  have "published_ok (table_format (gs (shared w)))"
    using a by (simp add: published_ok_def)
  moreover have "detected_ok (detected_table_format (reg (detector w)))"
    using b by (simp add: detected_ok_def)
  ultimately have ok: "published_ok (table_format (gs (shared (run w evs))))"
    using run_keeps by blast
  from ok have ns: "table_format (gs (shared (run w evs))) \<noteq> Some DETECTANDO"
    by (rule published_ok_not_sentinel)
  from ok ns table_sizer_writes [of ts st ts' st'] table_sizer_default [of st alto ancho]
    process_table_format [of p st t_hero now clk]
  show ?thesis by blast
qed

theorem table_format_never_unresolved_witness:
  "table_format (gs (shared initial_world)) = None \<and>
   detected_table_format (reg (detector initial_world)) = DETECTANDO \<and>
   frame (shared (step initial_world (Capture (Some (480, 640)) []))) = Some (480, 640) \<and>
   detections (shared (step initial_world (Capture (Some (480, 640)) []))) = [] \<and>
   table_format (gs (shared (run initial_world first_tick))) = Some ''6-Max'' \<and>
   published_ok (table_format (gs (shared (run initial_world first_tick)))) \<and>
   table_format (gs (shared (run initial_world first_tick))) \<noteq> Some DETECTANDO \<and>
   (\<exists>ts1 st1.
      table_sizer_process initial_sizer (shared (step initial_world (Capture (Some (480, 640)) [])))
        = Inr (ts1, st1) \<and>
      table_format (gs st1) = Some ''6-Max'')"
proof -
  let ?st = "shared (step initial_world (Capture (Some (480, 640)) []))"
  have a: "table_format (gs (shared initial_world)) = None"
    by (simp add: initial_world_def initial_state_def initial_game_state_def)
  have b: "detected_table_format (reg (detector initial_world)) = DETECTANDO"
    by (simp add: initial_world_def initial_plugin_def)
  have fr: "frame ?st = Some (480, 640)" and ds: "detections ?st = []"
    by simp_all
  note c10 = table_format_never_unresolved [OF a b, of first_tick _ ?st _ _ 480 640]
  have sz: "sizer (step initial_world (Capture (Some (480, 640)) [])) = initial_sizer"
    by (simp add: initial_world_def)
  from c10 fr ds obtain ts1 st1 where
    t: "table_sizer_process initial_sizer ?st = Inr (ts1, st1)"
    and f: "table_format (gs st1) = Some ''6-Max''"
    by blast
  have fr1: "frame st1 = Some (480, 640)" and ds1: "detections st1 = []"
    using t fr ds
    by (auto simp add: table_sizer_process_def Let_def split: sum.splits option.splits)
  have det: "detector (step initial_world (Capture (Some (480, 640)) [])) = initial_plugin"
    by (simp add: initial_world_def)
  let ?r = "process initial_plugin st1 1 1 (clock_at 1)"
  have "detected_table_format (reg (fst ?r)) = DETECTANDO"
    using fr1 ds1
    by (simp add: process_def Let_def initial_plugin_def deque_append_def BUFFER_SIZE_def
        consolidar_buffer_def candidates_of_def build_clusters_def resolve_clusters_def
        gestionar_asientos_def matched_seats_def current_clusters_of_def
        inferir_formato_geometrico_def)
  with process_table_format [of initial_plugin st1 1 1 "clock_at 1"] f
  have "table_format (gs (snd ?r)) = Some ''6-Max''" by simp
  then have res: "table_format (gs (shared (run initial_world first_tick))) = Some ''6-Max''"
    using t sz det
    by (simp add: run_def first_tick_def case_prod_beta)
  from c10 have "published_ok (table_format (gs (shared (run initial_world first_tick))))"
    and "table_format (gs (shared (run initial_world first_tick))) \<noteq> Some DETECTANDO"
    by blast+
  with a b fr ds res t f show ?thesis by blast
qed

end
